theory Spec2Isabelle
  imports Complex_Main
begin

section \<open>The JavaScript runtime the revenue engine runs on\<close>

subsection \<open>Time values and the calendar\<close>

text \<open>
  A time value is a number of milliseconds since 1970-01-01T00:00:00Z. The day number,
  the year and the month of a time value, \<^verbatim>\<open>MakeDay\<close> and \<^verbatim>\<open>Date.UTC\<close> follow the
  language definition: \<^verbatim>\<open>Date.UTC\<close> reads a year from 0 to 99 as 1900 plus that year, and
  a month outside 0..11 carries into the year. The year of a day is computed from an
  estimate that is at most one off. Time values are unbounded here: the limit of
  8.64e15 milliseconds on either side of the epoch is not part of the model.
\<close>

definition msPerDay :: int where
  "msPerDay = 86400000"

definition Day :: "int \<Rightarrow> int" where
  "Day t = t div msPerDay"

definition DayFromYear :: "int \<Rightarrow> int" where
  "DayFromYear y = 365 * (y - 1970) + (y - 1969) div 4 - (y - 1901) div 100 + (y - 1601) div 400"

definition DaysInYear :: "int \<Rightarrow> int" where
  "DaysInYear y =
     (if y mod 4 \<noteq> 0 then 365
      else if y mod 100 \<noteq> 0 then 366
      else if y mod 400 \<noteq> 0 then 365
      else 366)"

definition InLeapYear :: "int \<Rightarrow> int" where
  "InLeapYear y = (if DaysInYear y = 366 then 1 else 0)"

definition YearFromDay :: "int \<Rightarrow> int" where
  "YearFromDay d =
     (let y = 1970 + (d * 400) div 146097
      in if DayFromYear (y + 1) \<le> d then y + 1
         else if d < DayFromYear y then y - 1
         else y)"

definition MonthFromDay :: "int \<Rightarrow> int" where
  "MonthFromDay d =
     (let y = YearFromDay d; n = d - DayFromYear y; l = InLeapYear y
      in if n < 31 then 0
         else if n < 59 + l then 1
         else if n < 90 + l then 2
         else if n < 120 + l then 3
         else if n < 151 + l then 4
         else if n < 181 + l then 5
         else if n < 212 + l then 6
         else if n < 243 + l then 7
         else if n < 273 + l then 8
         else if n < 304 + l then 9
         else if n < 334 + l then 10
         else 11)"

definition DayFromMonth :: "int \<Rightarrow> int \<Rightarrow> int" where
  "DayFromMonth l mn =
     (if mn = 0 then 0
      else if mn = 1 then 31
      else if mn = 2 then 59 + l
      else if mn = 3 then 90 + l
      else if mn = 4 then 120 + l
      else if mn = 5 then 151 + l
      else if mn = 6 then 181 + l
      else if mn = 7 then 212 + l
      else if mn = 8 then 243 + l
      else if mn = 9 then 273 + l
      else if mn = 10 then 304 + l
      else 334 + l)"

definition MakeDay :: "int \<Rightarrow> int \<Rightarrow> int \<Rightarrow> int" where
  "MakeDay year month dt =
     (let ym = year + month div 12; mn = month mod 12
      in DayFromYear ym + DayFromMonth (InLeapYear ym) mn + dt - 1)"

definition Date_UTC :: "int \<Rightarrow> int \<Rightarrow> int \<Rightarrow> int" where
  "Date_UTC year month dt =
     (let yr = (if 0 \<le> year \<and> year \<le> 99 then 1900 + year else year)
      in MakeDay yr month dt * msPerDay)"

definition getUTCFullYear :: "int \<Rightarrow> int" where
  "getUTCFullYear t = YearFromDay (Day t)"

definition getUTCMonth :: "int \<Rightarrow> int" where
  "getUTCMonth t = MonthFromDay (Day t)"

text \<open>
  The calendar months in one line: month \<open>k\<close> is month \<open>k mod 12\<close> of year \<open>k div 12\<close>.
  \<open>firstDay k\<close> is the day number of its first day, \<open>monthIndex d\<close> the month that day
  \<open>d\<close> lies in, and \<open>monthLength k\<close> its number of days by the leap-year rule.
\<close>

definition firstDay :: "int \<Rightarrow> int" where
  "firstDay k = MakeDay 0 k 1"

definition monthIndex :: "int \<Rightarrow> int" where
  "monthIndex d = 12 * YearFromDay d + MonthFromDay d"

definition monthLength :: "int \<Rightarrow> int" where
  "monthLength k =
     (let m = k mod 12
      in if m = 1 then 28 + InLeapYear (k div 12)
         else if m = 3 \<or> m = 5 \<or> m = 8 \<or> m = 10 then 30
         else 31)"


subsection \<open>Numbers\<close>

text \<open>
  A number of the program is an IEEE 754 double. The model keeps the exact value of a
  double as a \<^typ>\<open>rat\<close>. In the allocator, which divides a rent by the days of a
  month, an arithmetic operation whose exact result need not be a double is followed by
  \<open>fl\<close>, which rounds to the nearest double, a tie going to the even significand: 53
  significant bits, the smallest exponent -1022, below which the spacing of the doubles
  stays 2 to the power -1074. Infinities are not modelled: the magnitudes stay below 2
  to the power 1024. The summary adds and divides whole cents and multiplies a deposit
  of two decimals by 100, and is computed exactly. An integer-valued number below 2 to
  the power 53 is an \<^typ>\<open>int\<close>, on which addition, subtraction and comparison are
  exact, and \<^verbatim>\<open>NaN\<close> is \<^term>\<open>None\<close> where a value can be one. \<^verbatim>\<open>Math.round\<close>
  rounds to the nearest integer, a tie going up.
\<close>

definition Math_round :: "rat \<Rightarrow> int" where
  "Math_round x = \<lfloor>x + 1 / 2\<rfloor>"

text \<open>The number of binary digits of a positive integer.\<close>

function bit_length :: "int \<Rightarrow> int" where
  "bit_length n = (if n \<le> 0 then 0 else 1 + bit_length (n div 2))"
  by pat_completeness auto
termination
  by (relation "measure nat") auto

declare bit_length.simps [simp del]

function pow2i :: "int \<Rightarrow> int" where
  "pow2i n = (if n \<le> 0 then 1 else 2 * pow2i (n - 1))"
  by pat_completeness auto
termination
  by (relation "measure nat") auto

declare pow2i.simps [simp del]

definition pow2 :: "int \<Rightarrow> rat" where
  "pow2 e = (if 0 \<le> e then of_int (pow2i e) else 1 / of_int (pow2i (- e)))"

text \<open>
  The binary exponent of a number that is not 0: the \<open>e\<close> with
  \<open>pow2 e \<le> \<bar>x\<bar> < pow2 (e + 1)\<close>. The difference of the bit lengths of numerator
  and denominator is \<open>e\<close> or \<open>e + 1\<close>.
\<close>

definition exponent_of :: "rat \<Rightarrow> int" where
  "exponent_of x =
     (let a = \<bar>x\<bar>;
          e0 = bit_length (fst (quotient_of a)) - bit_length (snd (quotient_of a))
      in if pow2 e0 \<le> a then e0 else e0 - 1)"

definition round_half_even :: "rat \<Rightarrow> int" where
  "round_half_even y =
     (let f = \<lfloor>y\<rfloor>; d = y - of_int f
      in if d < 1 / 2 then f else if 1 / 2 < d then f + 1 else if even f then f else f + 1)"

definition fl :: "rat \<Rightarrow> rat" where
  "fl x =
     (if x = 0 then 0
      else (let q = pow2 (max (exponent_of x) (- 1022) - 52)
            in of_int (round_half_even (x / q)) * q))"

text \<open>A value is a double when rounding leaves it as it is.\<close>

definition is_double :: "rat \<Rightarrow> bool" where
  "is_double x = (fl x = x)"

subsection \<open>Strings\<close>

text \<open>
  A string of the program is a sequence of UTF-16 code units. Text that reaches the
  program from outside, a query parameter or a stored date string, is a list of code
  units, each an \<^typ>\<open>int\<close> from 0 to 65535; the text the program builds itself, month
  keys and the decimal form of a number, is made of ASCII characters and is an Isabelle
  string, which \<open>units\<close> turns into its code units.
\<close>

type_synonym ustring = "int list"

definition units :: "string \<Rightarrow> ustring" where
  "units s = map of_char s"

text \<open>The character of a digit, found by halving the range 0..9.\<close>

definition digit_char :: "int \<Rightarrow> char" where
  "digit_char n =
     (if n < 5 then
        (if n < 2 then (if n < 1 then CHR ''0'' else CHR ''1'')
         else if n < 3 then CHR ''2'' else if n < 4 then CHR ''3'' else CHR ''4'')
      else
        (if n < 7 then (if n < 6 then CHR ''5'' else CHR ''6'')
         else if n < 8 then CHR ''7'' else if n < 9 then CHR ''8'' else CHR ''9''))"

text \<open>The decimal digits of a number that is not negative.\<close>

function digits_of :: "int \<Rightarrow> string" where
  "digits_of n =
     (if n < 10 then [digit_char n] else digits_of (n div 10) @ [digit_char (n mod 10)])"
  by pat_completeness auto
termination
  by (relation "measure nat") auto

declare digits_of.simps [simp del]

text \<open>\<^verbatim>\<open>String(n)\<close> of an integer-valued number.\<close>

definition Number_toString :: "int \<Rightarrow> string" where
  "Number_toString n =
     (if n < 0 then CHR ''-'' # digits_of (- n) else digits_of n)"

text \<open>\<^verbatim>\<open>String(v)\<close> of a number that may be \<^verbatim>\<open>NaN\<close>, as a template literal prints it.\<close>

definition String_of :: "int option \<Rightarrow> string" where
  "String_of v = (case v of None \<Rightarrow> ''NaN'' | Some n \<Rightarrow> Number_toString n)"

definition padStart :: "string \<Rightarrow> nat \<Rightarrow> char \<Rightarrow> string" where
  "padStart s n c = replicate (n - length s) c @ s"

definition startsWith :: "string \<Rightarrow> string \<Rightarrow> bool" where
  "startsWith s p = (take (length p) s = p)"

text \<open>The decimal digits \<^verbatim>\<open>0\<close> to \<^verbatim>\<open>9\<close> are the code units 48 to 57.\<close>

definition is_digit :: "int \<Rightarrow> bool" where
  "is_digit c = (48 \<le> c \<and> c \<le> 57)"

definition digits_value :: "ustring \<Rightarrow> int" where
  "digits_value ds = foldl (\<lambda>a c. 10 * a + (c - 48)) 0 ds"

text \<open>
  The white space and line terminators that \<^verbatim>\<open>parseInt\<close> strips from the front of its
  argument: tab, line feed, vertical tab, form feed, carriage return, space, no-break
  space, the Unicode space separators, the line and paragraph separators and the byte
  order mark.
\<close>

definition is_ws :: "int \<Rightarrow> bool" where
  "is_ws c =
     ((9 \<le> c \<and> c \<le> 13) \<or> c = 32 \<or> c = 160 \<or> c = 5760 \<or> (8192 \<le> c \<and> c \<le> 8202)
      \<or> c = 8232 \<or> c = 8233 \<or> c = 8239 \<or> c = 8287 \<or> c = 12288 \<or> c = 65279)"

text \<open>
  \<^verbatim>\<open>parseInt(s, 10)\<close>: leading white space is dropped, a sign is read, then the
  longest run of decimal digits; no digit there gives \<^verbatim>\<open>NaN\<close>. The minus sign is the
  code unit 45 and the plus sign 43.
\<close>

definition parseInt10 :: "ustring \<Rightarrow> int option" where
  "parseInt10 s =
     (let s1 = dropWhile is_ws s;
          sign = (case s1 of c # _ \<Rightarrow> if c = 45 then - 1 else 1 | [] \<Rightarrow> (1::int));
          s2 = (case s1 of c # r \<Rightarrow> if c = 45 \<or> c = 43 then r else s1 | [] \<Rightarrow> s1);
          ds = takeWhile is_digit s2
      in if ds = [] then None else Some (sign * digits_value ds))"

definition is_hex_digit :: "int \<Rightarrow> bool" where
  "is_hex_digit c = (is_digit c \<or> (97 \<le> c \<and> c \<le> 102) \<or> (65 \<le> c \<and> c \<le> 70))"

definition hex_val :: "int \<Rightarrow> int" where
  "hex_val c = (if is_digit c then c - 48 else if 97 \<le> c then c - 87 else c - 55)"

text \<open>
  \<^verbatim>\<open>parseInt(s)\<close> with no radix: as above, but a \<^verbatim>\<open>0x\<close> or \<^verbatim>\<open>0X\<close> after the sign
  switches to hexadecimal digits.
\<close>

definition parseInt :: "ustring \<Rightarrow> int option" where
  "parseInt s =
     (let s1 = dropWhile is_ws s;
          sign = (case s1 of c # _ \<Rightarrow> if c = 45 then - 1 else 1 | [] \<Rightarrow> (1::int));
          s2 = (case s1 of c # r \<Rightarrow> if c = 45 \<or> c = 43 then r else s1 | [] \<Rightarrow> s1)
      in if take 2 s2 = units ''0x'' \<or> take 2 s2 = units ''0X'' then
           (let hs = takeWhile is_hex_digit (drop 2 s2)
            in if hs = [] then None
               else Some (sign * foldl (\<lambda>a c. 16 * a + hex_val c) 0 hs))
         else
           (let ds = takeWhile is_digit s2
            in if ds = [] then None else Some (sign * digits_value ds)))"

subsection \<open>Date values and date strings\<close>

text \<open>
  A \<^verbatim>\<open>Date\<close> object holds a time value or \<^verbatim>\<open>NaN\<close> (an invalid date). Comparing two
  dates compares their time values, and every comparison with \<^verbatim>\<open>NaN\<close> is false.
\<close>

datatype js_date = InvalidDate | ValidDate int

fun date_less :: "js_date \<Rightarrow> js_date \<Rightarrow> bool" where
  "date_less (ValidDate a) (ValidDate b) = (a < b)"
| "date_less _ _ = False"

text \<open>
  \<^verbatim>\<open>new Date(string)\<close>. The date-only ISO form \<^verbatim>\<open>YYYY-MM-DD\<close> with a month from 01 to 12
  and a day of that month is read as midnight UTC; what the runtime makes of every
  other string is the parameter \<open>legacy\<close> (\<^term>\<open>None\<close> for \<^verbatim>\<open>NaN\<close>).
\<close>

definition is_date_only :: "ustring \<Rightarrow> bool" where
  "is_date_only s =
     (length s = 10 \<and> list_all is_digit (take 4 s) \<and> s ! 4 = 45
      \<and> list_all is_digit (take 2 (drop 5 s)) \<and> s ! 7 = 45
      \<and> list_all is_digit (drop 8 s))"

definition Date_parse :: "(ustring \<Rightarrow> int option) \<Rightarrow> ustring \<Rightarrow> int option" where
  "Date_parse legacy s =
     (if is_date_only s then
        (let y = digits_value (take 4 s);
             m = digits_value (take 2 (drop 5 s));
             d = digits_value (drop 8 s)
         in if 1 \<le> m \<and> m \<le> 12 \<and> 1 \<le> d \<and> d \<le> monthLength (12 * y + m - 1)
            then Some (MakeDay y (m - 1) d * msPerDay)
            else legacy s)
      else legacy s)"

definition Date_of_string :: "(ustring \<Rightarrow> int option) \<Rightarrow> ustring \<Rightarrow> js_date" where
  "Date_of_string legacy s =
     (case Date_parse legacy s of None \<Rightarrow> InvalidDate | Some t \<Rightarrow> ValidDate t)"

text \<open>
  The values a date field of a lease can hold: nothing (\<^verbatim>\<open>undefined\<close> or \<^verbatim>\<open>null\<close>),
  a \<^verbatim>\<open>Date\<close> object, or a string. Only nothing and the empty string are falsy.
\<close>

datatype js_value = Undefined | DateObject js_date | StringValue ustring

fun truthy :: "js_value \<Rightarrow> bool" where
  "truthy Undefined = False"
| "truthy (DateObject _) = True"
| "truthy (StringValue s) = (s \<noteq> [])"

definition js_or :: "js_value \<Rightarrow> js_value \<Rightarrow> js_value" where
  "js_or a b = (if truthy a then a else b)"

subsection \<open>Objects with string keys\<close>

text \<open>
  An object used as a dictionary is an association list in insertion order: a new key is
  appended, an existing one is updated in place. The month keys are never integer
  strings, so insertion order is the order \<^verbatim>\<open>Object.keys\<close> and \<^verbatim>\<open>Object.entries\<close> see.
\<close>

type_synonym 'a obj = "(string \<times> 'a) list"

fun obj_set :: "'a obj \<Rightarrow> string \<Rightarrow> 'a \<Rightarrow> 'a obj" where
  "obj_set [] k v = [(k, v)]"
| "obj_set ((k', v') # ob) k v = (if k' = k then (k, v) # ob else (k', v') # obj_set ob k v)"

text \<open>\<^verbatim>\<open>ob[k] || 0\<close>: a missing key reads as 0.\<close>

definition obj_get_or0 :: "int obj \<Rightarrow> string \<Rightarrow> int" where
  "obj_get_or0 ob k = (case map_of ob k of None \<Rightarrow> 0 | Some v \<Rightarrow> v)"

definition obj_keys :: "'a obj \<Rightarrow> string list" where
  "obj_keys ob = map fst ob"

definition hasOwnProperty :: "'a obj \<Rightarrow> string \<Rightarrow> bool" where
  "hasOwnProperty ob k = (k \<in> set (obj_keys ob))"

text \<open>\<^verbatim>\<open>ob[k] = (ob[k] || 0) + v\<close>\<close>

definition obj_add :: "int obj \<Rightarrow> string \<Rightarrow> int \<Rightarrow> int obj" where
  "obj_add ob k v = obj_set ob k (obj_get_or0 ob k + v)"

section \<open>The accrual allocator\<close>

definition DAY_IN_MS :: int where
  "DAY_IN_MS = 24 * 60 * 60 * 1000"

definition padMonth :: "int option \<Rightarrow> string" where
  "padMonth v = padStart (String_of v) 2 CHR ''0''"

definition parseDateOnly :: "(ustring \<Rightarrow> int option) \<Rightarrow> js_value \<Rightarrow> js_date option" where
  "parseDateOnly legacy v =
     (if \<not> truthy v then None
      else case v of
        DateObject d \<Rightarrow> Some d
      | StringValue s \<Rightarrow>
          if is_date_only s then
            Some (ValidDate (Date_UTC (digits_value (take 4 s))
                               (digits_value (take 2 (drop 5 s)) - 1)
                               (digits_value (drop 8 s))))
          else (case Date_of_string legacy s of
                  InvalidDate \<Rightarrow> None
                | ValidDate t \<Rightarrow> Some (ValidDate t))
      | Undefined \<Rightarrow> None)"

definition getMonthKey :: "int \<Rightarrow> string" where
  "getMonthKey t = Number_toString (getUTCFullYear t) @ ''-'' @ padMonth (Some (getUTCMonth t + 1))"

record application =
  app_id :: "string option"
  leaseGenerated :: bool
  leaseStartDate :: js_value
  leaseEndDate :: js_value
  requestedStartDate :: js_value
  requestedEndDate :: js_value
  rentalAmount :: "rat option"
  depositAmount :: "rat option"

record allocation =
  allocations :: "int obj"
  nightsByMonth :: "int obj"

definition no_allocation :: allocation where
  "no_allocation = \<lparr>allocations = [], nightsByMonth = []\<rparr>"

text \<open>
  The three places of the loop that step \<^verbatim>\<open>currentMonth\<close> are the same expression, the
  first day of the month after the current one.
\<close>

definition next_month :: "int \<Rightarrow> int" where
  "next_month currentMonth =
     Date_UTC (getUTCFullYear currentMonth) (getUTCMonth currentMonth + 1) 1"

text \<open>
  One pass of the loop body over the two accumulators. The two quotients by
  \<^verbatim>\<open>DAY_IN_MS\<close>, the quotient of the day counts and the two products are rounded to
  doubles as they are computed; the differences of time values are exact.
\<close>

definition month_step :: "int \<Rightarrow> int \<Rightarrow> rat \<Rightarrow> int \<Rightarrow> allocation \<Rightarrow> allocation" where
  "month_step leaseStart leaseEnd monthlyRent currentMonth acc =
     (let monthStart = currentMonth;
          monthEnd = Date_UTC (getUTCFullYear currentMonth) (getUTCMonth currentMonth + 1) 0;
          activeStart = max monthStart leaseStart;
          activeEnd = min monthEnd leaseEnd
      in if activeEnd < activeStart then acc
         else
           (let activeDays =
                  Math_round (fl (of_int (activeEnd - activeStart) / of_int DAY_IN_MS)) + 1;
                daysInMonth =
                  Math_round (fl (of_int (monthEnd - monthStart) / of_int DAY_IN_MS)) + 1
            in if activeDays \<le> 0 \<or> daysInMonth \<le> 0 then acc
               else
                 (let proratedAmount =
                        fl (monthlyRent * fl (of_int activeDays / of_int daysInMonth));
                      cents = Math_round (fl (proratedAmount * 100));
                      monthKey = getMonthKey monthStart
                  in \<lparr>allocations = obj_add (allocations acc) monthKey cents,
                      nightsByMonth = obj_add (nightsByMonth acc) monthKey activeDays\<rparr>)))"

section \<open>Facts about the calendar\<close>

lemma div_succ:
  fixes a n :: int
  assumes n: "0 < n"
  shows "(a + 1) div n = (if (a + 1) mod n = 0 then a div n + 1 else a div n)"
    and "(a + 1) mod n = (if a mod n + 1 = n then 0 else a mod n + 1)"
proof -
  define q r where "q = a div n" and "r = a mod n"
  have a: "a = n * q + r" and r: "0 \<le> r" "r < n"
    using n by (simp_all add: q_def r_def)
  have "(a + 1) div n = (if (a + 1) mod n = 0 then a div n + 1 else a div n)
      \<and> (a + 1) mod n = (if a mod n + 1 = n then 0 else a mod n + 1)"
  proof (cases "r + 1 = n")
    case True
    have e: "a + 1 = n * (q + 1) + 0" using a True by (simp add: algebra_simps)
    have "(a + 1) div n = q + 1" by (rule int_div_pos_eq [OF e]) (use n in auto)
    moreover have "(a + 1) mod n = 0" by (rule int_mod_pos_eq [OF e]) (use n in auto)
    ultimately show ?thesis using True by (simp add: q_def r_def)
  next
    case False
    have e: "a + 1 = n * q + (r + 1)" using a by simp
    have l: "0 \<le> r + 1" "r + 1 < n" using r False by auto
    have "(a + 1) div n = q" by (rule int_div_pos_eq [OF e l])
    moreover have "(a + 1) mod n = r + 1" by (rule int_mod_pos_eq [OF e l])
    ultimately show ?thesis using r False by (simp add: q_def r_def)
  qed
  then show "(a + 1) div n = (if (a + 1) mod n = 0 then a div n + 1 else a div n)"
    and "(a + 1) mod n = (if a mod n + 1 = n then 0 else a mod n + 1)" by simp_all
qed

lemma mod_shift4: "((y::int) - 1968) mod 4 = 0 \<longleftrightarrow> y mod 4 = 0"
proof -
  have "(y - 1968) mod 4 = (y + 4 * (- 492)) mod 4" by simp
  also have "\<dots> = y mod 4" by (rule mod_mult_self2)
  finally show ?thesis by simp
qed

lemma mod_shift100: "((y::int) - 1900) mod 100 = 0 \<longleftrightarrow> y mod 100 = 0"
proof -
  have "(y - 1900) mod 100 = (y + 100 * (- 19)) mod 100" by simp
  also have "\<dots> = y mod 100" by (rule mod_mult_self2)
  finally show ?thesis by simp
qed

lemma mod_shift400: "((y::int) - 1600) mod 400 = 0 \<longleftrightarrow> y mod 400 = 0"
proof -
  have "(y - 1600) mod 400 = (y + 400 * (- 4)) mod 400" by simp
  also have "\<dots> = y mod 400" by (rule mod_mult_self2)
  finally show ?thesis by simp
qed

lemma mod_400_100: "(y::int) mod 400 = 0 \<Longrightarrow> y mod 100 = 0"
proof -
  assume "y mod 400 = 0"
  then have "400 dvd y" by (simp add: dvd_eq_mod_eq_0)
  moreover have "(100::int) dvd 400" by simp
  ultimately have "100 dvd y" by (rule dvd_trans [rotated])
  then show ?thesis by (simp add: dvd_eq_mod_eq_0)
qed

lemma mod_100_4: "(y::int) mod 100 = 0 \<Longrightarrow> y mod 4 = 0"
proof -
  assume "y mod 100 = 0"
  then have "100 dvd y" by (simp add: dvd_eq_mod_eq_0)
  moreover have "(4::int) dvd 100" by simp
  ultimately have "4 dvd y" by (rule dvd_trans [rotated])
  then show ?thesis by (simp add: dvd_eq_mod_eq_0)
qed

lemma DayFromYear_next: "DayFromYear (y + 1) = DayFromYear y + DaysInYear y"
proof -
  have a: "(y + 1 - 1969) div 4 = (if y mod 4 = 0 then (y - 1969) div 4 + 1 else (y - 1969) div 4)"
    using div_succ(1) [of 4 "y - 1969"] mod_shift4 [of y] by (simp add: algebra_simps)
  have b: "(y + 1 - 1901) div 100 = (if y mod 100 = 0 then (y - 1901) div 100 + 1 else (y - 1901) div 100)"
    using div_succ(1) [of 100 "y - 1901"] mod_shift100 [of y] by (simp add: algebra_simps)
  have c: "(y + 1 - 1601) div 400 = (if y mod 400 = 0 then (y - 1601) div 400 + 1 else (y - 1601) div 400)"
    using div_succ(1) [of 400 "y - 1601"] mod_shift400 [of y] by (simp add: algebra_simps)
  show ?thesis
    unfolding DayFromYear_def DaysInYear_def a b c
    using mod_400_100 [of y] mod_100_4 [of y] by simp
qed

lemma div_bounds:
  fixes a n :: int
  assumes "0 < n"
  shows "n * (a div n) \<le> a" and "a < n * (a div n) + n"
proof -
  have "a = n * (a div n) + a mod n" by simp
  moreover have "0 \<le> a mod n" "a mod n < n" using assms by simp_all
  ultimately show "n * (a div n) \<le> a" and "a < n * (a div n) + n" by linarith+
qed

lemma DayFromYear_linear:
  "146097 * (y - 1970) - 506 \<le> 400 * DayFromYear y"
  "400 * DayFromYear y \<le> 146097 * (y - 1970) + 589"
proof -
  define a b c where "a = (y - 1969) div 4" and "b = (y - 1901) div 100" and "c = (y - 1601) div 400"
  have p: "(0::int) < 4" "(0::int) < 100" "(0::int) < 400" by simp_all
  have a: "4 * a \<le> y - 1969" "y - 1969 < 4 * a + 4"
    using div_bounds [OF p(1), of "y - 1969"] by (simp_all add: a_def)
  have b: "100 * b \<le> y - 1901" "y - 1901 < 100 * b + 100"
    using div_bounds [OF p(2), of "y - 1901"] by (simp_all add: b_def)
  have c: "400 * c \<le> y - 1601" "y - 1601 < 400 * c + 400"
    using div_bounds [OF p(3), of "y - 1601"] by (simp_all add: c_def)
  have d: "DayFromYear y = 365 * (y - 1970) + a - b + c"
    by (simp add: DayFromYear_def a_def b_def c_def)
  show "146097 * (y - 1970) - 506 \<le> 400 * DayFromYear y"
    unfolding d using a b c by (simp add: algebra_simps)
  show "400 * DayFromYear y \<le> 146097 * (y - 1970) + 589"
    unfolding d using a b c by (simp add: algebra_simps)
qed

lemma YearFromDay_bounds:
  "DayFromYear (YearFromDay d) \<le> d" "d < DayFromYear (YearFromDay d + 1)"
proof -
  define y where "y = 1970 + (d * 400) div 146097"
  define q where "q = (d * 400) div 146097"
  have p: "(0::int) < 146097" by simp
  have q: "146097 * q \<le> 400 * d" "400 * d < 146097 * q + 146097"
    using div_bounds [OF p, of "d * 400"] by (simp_all add: q_def mult.commute)
  have yq: "y = 1970 + q" by (simp add: y_def q_def)
  have lo: "DayFromYear (y - 1) \<le> d"
    using DayFromYear_linear(2) [of "y - 1"] q unfolding yq by (simp add: algebra_simps)
  have hi: "d < DayFromYear (y + 2)"
    using DayFromYear_linear(1) [of "y + 2"] q unfolding yq by (simp add: algebra_simps)
  have yd: "YearFromDay d = (if DayFromYear (y + 1) \<le> d then y + 1
         else if d < DayFromYear y then y - 1 else y)"
    by (simp add: YearFromDay_def y_def Let_def)
  have s: "y + 1 + 1 = y + 2" "y - 1 + 1 = y" by simp_all
  show "DayFromYear (YearFromDay d) \<le> d" using lo by (simp add: yd)
  show "d < DayFromYear (YearFromDay d + 1)" using hi by (simp add: yd s)
qed


lemma DaysInYear_leap: "DaysInYear y = 365 + InLeapYear y"
  by (simp add: DaysInYear_def InLeapYear_def)

lemma InLeapYear_range: "InLeapYear y = 0 \<or> InLeapYear y = 1"
  by (simp add: InLeapYear_def)

lemma firstDay_unfold:
  "firstDay k = DayFromYear (k div 12) + DayFromMonth (InLeapYear (k div 12)) (k mod 12)"
  by (simp add: firstDay_def MakeDay_def Let_def)

lemma MakeDay_firstDay: "MakeDay y m dt = firstDay (12 * y + m) + dt - 1"
  by (simp add: firstDay_def MakeDay_def Let_def)

lemma month_cases:
  fixes m :: int
  assumes "0 \<le> m" "m < 12"
  obtains "m = 0" | "m = 1" | "m = 2" | "m = 3" | "m = 4" | "m = 5"
    | "m = 6" | "m = 7" | "m = 8" | "m = 9" | "m = 10" | "m = 11"
  using assms by atomize_elim arith

lemma firstDay_next: "firstDay (k + 1) = firstDay k + monthLength k"
proof -
  define y m where "y = k div 12" and "m = k mod 12"
  have m: "0 \<le> m" "m < 12" by (simp_all add: m_def)
  have p: "(0::int) < 12" by simp
  have dv: "(k + 1) div 12 = (if m = 11 then y + 1 else y)"
    and md: "(k + 1) mod 12 = (if m = 11 then 0 else m + 1)"
    using div_succ [OF p, of k] by (auto simp: y_def m_def)
  have l: "monthLength k = (if m = 1 then 28 + InLeapYear y
         else if m = 3 \<or> m = 5 \<or> m = 8 \<or> m = 10 then 30 else 31)"
    by (simp add: monthLength_def y_def m_def)
  have f: "firstDay k = DayFromYear y + DayFromMonth (InLeapYear y) m"
    by (simp add: firstDay_unfold y_def m_def)
  have g: "firstDay (k + 1) = (if m = 11 then DayFromYear (y + 1)
         else DayFromYear y + DayFromMonth (InLeapYear y) (m + 1))"
    by (simp add: firstDay_unfold dv md DayFromMonth_def)
  from m show ?thesis
    by (cases m rule: month_cases)
      (simp_all add: f g l DayFromMonth_def DayFromYear_next DaysInYear_leap)
qed

lemma monthLength_bounds: "28 \<le> monthLength k" "monthLength k \<le> 31"
  using InLeapYear_range [of "k div 12"] by (auto simp: monthLength_def Let_def)

lemma MonthFromDay_range: "0 \<le> MonthFromDay d" "MonthFromDay d < 12"
  by (simp_all add: MonthFromDay_def Let_def)

lemma monthIndex_div: "monthIndex d div 12 = YearFromDay d" "monthIndex d mod 12 = MonthFromDay d"
  using MonthFromDay_range [of d] by (simp_all add: monthIndex_def)

lemma monthIndex_lower: "firstDay (monthIndex d) \<le> d"
proof -
  define y n l where "y = YearFromDay d" and "n = d - DayFromYear y" and "l = InLeapYear y"
  have n: "0 \<le> n" using YearFromDay_bounds(1) [of d] by (simp add: n_def y_def)
  have l: "l = 0 \<or> l = 1" using InLeapYear_range by (simp add: l_def)
  have f: "firstDay (monthIndex d) = DayFromYear y + DayFromMonth l (MonthFromDay d)"
    by (simp add: firstDay_unfold monthIndex_div y_def l_def)
  have "DayFromMonth l (MonthFromDay d) \<le> n"
    using n l unfolding MonthFromDay_def DayFromMonth_def Let_def y_def [symmetric]
      n_def [symmetric] l_def [symmetric]
    by auto
  then show ?thesis by (simp add: f n_def)
qed

lemma monthIndex_upper: "d < firstDay (monthIndex d + 1)"
proof -
  define y n l where "y = YearFromDay d" and "n = d - DayFromYear y" and "l = InLeapYear y"
  have n: "n < 365 + l"
    using YearFromDay_bounds(2) [of d]
    by (simp add: n_def y_def l_def DayFromYear_next DaysInYear_leap)
  have l: "l = 0 \<or> l = 1" using InLeapYear_range by (simp add: l_def)
  have f: "firstDay (monthIndex d) = DayFromYear y + DayFromMonth l (MonthFromDay d)"
    by (simp add: firstDay_unfold monthIndex_div y_def l_def)
  have ml: "monthLength (monthIndex d) = (if MonthFromDay d = 1 then 28 + l
         else if MonthFromDay d = 3 \<or> MonthFromDay d = 5 \<or> MonthFromDay d = 8
           \<or> MonthFromDay d = 10 then 30 else 31)"
    by (simp add: monthLength_def monthIndex_div y_def l_def)
  have "n < DayFromMonth l (MonthFromDay d) + monthLength (monthIndex d)"
    using n l unfolding ml unfolding MonthFromDay_def DayFromMonth_def Let_def y_def [symmetric]
      n_def [symmetric] l_def [symmetric]
    by auto
  then show ?thesis by (simp add: firstDay_next f n_def)
qed

lemma firstDay_mono_step: "0 \<le> j \<Longrightarrow> firstDay k + 28 * j \<le> firstDay (k + j)"
proof (induction j rule: int_ge_induct)
  case base
  show ?case by simp
next
  case (step i)
  have "firstDay (k + (i + 1)) = firstDay (k + i) + monthLength (k + i)"
    using firstDay_next [of "k + i"] by (simp add: add.assoc)
  then show ?case using step monthLength_bounds(1) [of "k + i"] by (simp add: algebra_simps)
qed

lemma firstDay_strict_mono: "k < k' \<Longrightarrow> firstDay k < firstDay k'"
  using firstDay_mono_step [of "k' - k" k] by simp

lemma firstDay_mono: "k \<le> k' \<Longrightarrow> firstDay k \<le> firstDay k'"
  using firstDay_mono_step [of "k' - k" k] by simp

lemma monthIndex_unique:
  assumes "firstDay k \<le> d" "d < firstDay (k + 1)"
  shows "monthIndex d = k"
proof (rule ccontr)
  assume ne: "monthIndex d \<noteq> k"
  show False
  proof (cases "monthIndex d < k")
    case True
    then have "firstDay (monthIndex d + 1) \<le> firstDay k" by (intro firstDay_mono) simp
    then show False using monthIndex_upper [of d] assms(1) by simp
  next
    case False
    then have "firstDay (k + 1) \<le> firstDay (monthIndex d)" using ne by (intro firstDay_mono) simp
    then show False using monthIndex_lower [of d] assms(2) by simp
  qed
qed

lemma Day_bounds: "Day t * msPerDay \<le> t" "t < (Day t + 1) * msPerDay"
proof -
  have p: "0 < msPerDay" by (simp add: msPerDay_def)
  show "Day t * msPerDay \<le> t" "t < (Day t + 1) * msPerDay"
    using div_bounds [OF p, of t] by (simp_all add: Day_def algebra_simps)
qed

lemma Day_mult: "Day (d * msPerDay) = d"
  by (simp add: Day_def msPerDay_def)

lemma Date_UTC_firstDay:
  "Date_UTC y m dt =
     (firstDay (12 * (if 0 \<le> y \<and> y \<le> 99 then 1900 + y else y) + m) + dt - 1) * msPerDay"
  by (simp add: Date_UTC_def MakeDay_firstDay Let_def)

lemma ym_monthIndex: "12 * getUTCFullYear t + getUTCMonth t = monthIndex (Day t)"
  by (simp add: getUTCFullYear_def getUTCMonth_def monthIndex_def)

lemma next_month_lower: "firstDay (monthIndex (Day t) + 1) * msPerDay \<le> next_month t"
proof -
  define y where "y = getUTCFullYear t"
  define yr where "yr = (if 0 \<le> y \<and> y \<le> 99 then 1900 + y else y)"
  have "12 * y + getUTCMonth t + 1 \<le> 12 * yr + (getUTCMonth t + 1)"
    by (simp add: yr_def)
  then have "firstDay (monthIndex (Day t) + 1) \<le> firstDay (12 * yr + (getUTCMonth t + 1))"
    using ym_monthIndex [of t] by (intro firstDay_mono) (simp add: y_def)
  moreover have "next_month t = firstDay (12 * yr + (getUTCMonth t + 1)) * msPerDay"
    unfolding next_month_def Date_UTC_firstDay y_def [symmetric] yr_def [symmetric] by simp
  ultimately show ?thesis
    by (simp add: msPerDay_def)
qed

lemma next_month_greater: "t < next_month t"
proof -
  have "Day t + 1 \<le> firstDay (monthIndex (Day t) + 1)"
    using monthIndex_upper [of "Day t"] by simp
  then have "(Day t + 1) * msPerDay \<le> firstDay (monthIndex (Day t) + 1) * msPerDay"
    by (simp add: msPerDay_def)
  then show ?thesis
    using Day_bounds(2) [of t] next_month_lower [of t] by linarith
qed

section \<open>The loop over the months of a lease\<close>

function alloc_loop :: "int \<Rightarrow> int \<Rightarrow> rat \<Rightarrow> int \<Rightarrow> int \<Rightarrow> allocation \<Rightarrow> allocation" where
  "alloc_loop leaseStart leaseEnd monthlyRent finalMonth currentMonth acc =
     (if currentMonth \<le> finalMonth
      then alloc_loop leaseStart leaseEnd monthlyRent finalMonth (next_month currentMonth)
             (month_step leaseStart leaseEnd monthlyRent currentMonth acc)
      else acc)"
  by pat_completeness auto
termination
  apply (relation "measure (\<lambda>(s, e, r, fin, cur, acc). nat (fin - cur + 1))")
   apply simp
  subgoal for leaseStart leaseEnd monthlyRent finalMonth currentMonth acc
    using next_month_greater [of currentMonth] by simp
  done

declare alloc_loop.simps [simp del]

text \<open>
  \<^verbatim>\<open>Number(application.rentalAmount || 0)\<close> is the double nearest to the amount the
  lease records.
\<close>

definition calculateAccrualAllocations :: "(ustring \<Rightarrow> int option) \<Rightarrow> application \<Rightarrow> allocation" where
  "calculateAccrualAllocations legacy app =
     (case (parseDateOnly legacy (js_or (leaseStartDate app) (requestedStartDate app)),
            parseDateOnly legacy (js_or (leaseEndDate app) (requestedEndDate app))) of
        (Some leaseStart, Some leaseEnd) \<Rightarrow>
          if date_less leaseEnd leaseStart then no_allocation
          else
            (let monthlyRent = (case rentalAmount app of None \<Rightarrow> 0 | Some r \<Rightarrow> fl r)
             in if monthlyRent = 0 then no_allocation
                else
                  (case (leaseStart, leaseEnd) of
                     (ValidDate s, ValidDate e) \<Rightarrow>
                       alloc_loop s e monthlyRent
                         (Date_UTC (getUTCFullYear e) (getUTCMonth e) 1)
                         (Date_UTC (getUTCFullYear s) (getUTCMonth s) 1)
                         no_allocation
                   | _ \<Rightarrow> no_allocation))
      | _ \<Rightarrow> no_allocation)"

section \<open>The period filter\<close>

text \<open>
  The request's \<^verbatim>\<open>period\<close>, \<^verbatim>\<open>year\<close> and \<^verbatim>\<open>month\<close> are query-string parameters: each is
  absent or a string, and only an absent or empty one is falsy. A configuration holds the
  parsed year and month, each \<^verbatim>\<open>NaN\<close> when \<^verbatim>\<open>parseInt\<close> finds no digit to read.
\<close>

datatype periodConfig = AllPeriod | YearPeriod "int option" | MonthPeriod "int option" "int option"

definition truthy_param :: "ustring option \<Rightarrow> bool" where
  "truthy_param v = (case v of None \<Rightarrow> False | Some s \<Rightarrow> s \<noteq> [])"

definition param_text :: "ustring option \<Rightarrow> ustring" where
  "param_text v = (case v of None \<Rightarrow> [] | Some s \<Rightarrow> s)"

definition getPeriodConfig :: "ustring \<Rightarrow> ustring option \<Rightarrow> ustring option \<Rightarrow> periodConfig" where
  "getPeriodConfig period year month =
     (if period = units ''year'' \<and> truthy_param year then YearPeriod (parseInt10 (param_text year))
      else if period = units ''month'' \<and> truthy_param year \<and> truthy_param month then
        MonthPeriod (parseInt10 (param_text year)) (parseInt10 (param_text month))
      else AllPeriod)"

definition monthMatchesPeriod :: "string \<Rightarrow> periodConfig \<Rightarrow> bool" where
  "monthMatchesPeriod monthKey periodConfig =
     (case periodConfig of
        YearPeriod y \<Rightarrow> startsWith monthKey (String_of y @ ''-'')
      | MonthPeriod y m \<Rightarrow> monthKey = String_of y @ ''-'' @ padMonth m
      | AllPeriod \<Rightarrow> True)"

section \<open>The revenue summary\<close>

text \<open>
  The handler of \<^verbatim>\<open>GET /admin/revenue-summary\<close> as a function of the request's query,
  the stored payments and leases, the current time and the server's time zone. Of its
  answer the model keeps the cash summary, the three
  twelve-month maps, the accrual summary and the two timelines; the breakdown by payment
  type, the upcoming revenue and the sample of recent payments are left out, and so is
  the order in which the query returns the payments, which none of the kept fields
  depends on. The admin check happens before any of this.
\<close>

record payment =
  amount :: int
  creditCardFee :: "int option"
  paymentType :: string
  status :: string
  paidAt :: "int option"
  refundCategory :: "string option"
  applicationId :: "string option"
  refundAmount :: "int option"

record query =
  q_period :: "ustring option"
  q_year :: "ustring option"
  q_month :: "ustring option"

text \<open>
  Local time. The time zone of the server is two functions: \<open>tz t\<close> is the offset of
  local time from UTC, in milliseconds, in force at the time value \<open>t\<close>, and \<open>tzl t\<close>
  the offset the runtime takes for the local time \<open>t\<close> when it turns a local date into a
  time value. With daylight saving either changes through the year.
\<close>

definition getFullYear :: "(int \<Rightarrow> int) \<Rightarrow> int \<Rightarrow> int" where
  "getFullYear tz t = YearFromDay (Day (t + tz t))"

definition getMonth :: "(int \<Rightarrow> int) \<Rightarrow> int \<Rightarrow> int" where
  "getMonth tz t = MonthFromDay (Day (t + tz t))"

text \<open>The time value of a local time.\<close>

definition UTC_of_local :: "(int \<Rightarrow> int) \<Rightarrow> int \<Rightarrow> int" where
  "UTC_of_local tzl t = t - tzl t"

text \<open>\<^verbatim>\<open>new Date(year, month, 1)\<close>, local midnight on the first of a month.\<close>

definition Date_local :: "(int \<Rightarrow> int) \<Rightarrow> int \<Rightarrow> int \<Rightarrow> int \<Rightarrow> int" where
  "Date_local tzl year month dt =
     (let yr = (if 0 \<le> year \<and> year \<le> 99 then 1900 + year else year)
      in UTC_of_local tzl (MakeDay yr month dt * msPerDay))"

definition local_month_key :: "(int \<Rightarrow> int) \<Rightarrow> int \<Rightarrow> string" where
  "local_month_key tz t =
     Number_toString (getFullYear tz t) @ ''-''
       @ padStart (Number_toString (getMonth tz t + 1)) 2 CHR ''0''"

text \<open>
  The date filter of the payment query. A bound is built by \<^verbatim>\<open>new Date\<close> from text made
  of the raw parameters.
\<close>

definition plus_one :: "int option \<Rightarrow> int option" where
  "plus_one v = (case v of None \<Rightarrow> None | Some n \<Rightarrow> Some (n + 1))"

definition dateFilter ::
  "(ustring \<Rightarrow> int option) \<Rightarrow> ustring \<Rightarrow> ustring option \<Rightarrow> ustring option
     \<Rightarrow> (js_date \<times> js_date) option"
where
  "dateFilter legacy period year month =
     (if period = units ''year'' \<and> truthy_param year then
        Some (Date_of_string legacy (param_text year @ units ''-01-01''),
              Date_of_string legacy
                (units (String_of (plus_one (parseInt (param_text year)))) @ units ''-01-01''))
      else if period = units ''month'' \<and> truthy_param year \<and> truthy_param month then
        Some (Date_of_string legacy
                (param_text year @ units ''-'' @ param_text month @ units ''-01''),
              Date_of_string legacy
                (param_text year @ units ''-''
                   @ units (String_of (plus_one (parseInt (param_text month)))) @ units ''-01''))
      else None)"

text \<open>
  \<^verbatim>\<open>Payment.find({status: 'succeeded', ...dateFilter})\<close>. A payment with no \<^verbatim>\<open>paidAt\<close>
  matches no range. A bound that is an invalid date cannot be cast for the query, which
  then rejects, and the handler answers with status 500.
\<close>

datatype error = ServerError

definition in_range :: "int \<Rightarrow> int \<Rightarrow> payment \<Rightarrow> bool" where
  "in_range lo hi p = (case paidAt p of None \<Rightarrow> False | Some t \<Rightarrow> lo \<le> t \<and> t < hi)"

fun find_succeeded :: "payment list \<Rightarrow> (js_date \<times> js_date) option \<Rightarrow> error + payment list" where
  "find_succeeded db None = Inr (filter (\<lambda>p. status p = ''succeeded'') db)"
| "find_succeeded db (Some (ValidDate lo, ValidDate hi)) =
     Inr (filter (\<lambda>p. status p = ''succeeded'' \<and> in_range lo hi p) db)"
| "find_succeeded db (Some _) = Inl ServerError"

record cash_summary =
  totalRevenue :: int
  netRevenue :: int
  totalFees :: int
  refundsTotal :: int
  paymentCount :: nat
  averagePayment :: rat

definition fee :: "payment \<Rightarrow> int" where
  "fee p = (case creditCardFee p of None \<Rightarrow> 0 | Some f \<Rightarrow> f)"

definition cashSummary :: "payment list \<Rightarrow> cash_summary" where
  "cashSummary payments =
     (let total = foldl (\<lambda>sum p. sum + amount p) 0 payments;
          net = foldl (\<lambda>sum p. sum + (amount p - fee p)) 0 payments;
          fees = foldl (\<lambda>sum p. sum + fee p) 0 payments;
          refunds = foldl (\<lambda>sum p. sum + \<bar>amount p\<bar>) 0
                      (filter (\<lambda>p. paymentType p = ''refund'' \<or> amount p < 0) payments)
      in \<lparr>totalRevenue = total, netRevenue = net, totalFees = fees, refundsTotal = refunds,
          paymentCount = length payments,
          averagePayment = (if length payments > 0
                            then of_int total / of_nat (length payments) else 0)\<rparr>)"

text \<open>The cash timeline: twelve keys set to 0, then each paid payment added under its key.\<close>

definition window_key :: "(int \<Rightarrow> int) \<Rightarrow> (int \<Rightarrow> int) \<Rightarrow> int \<Rightarrow> int \<Rightarrow> string" where
  "window_key tz tzl now i =
     local_month_key tz (Date_local tzl (getFullYear tz now) (getMonth tz now - i) 1)"

definition zero_month ::
  "(int \<Rightarrow> int) \<Rightarrow> (int \<Rightarrow> int) \<Rightarrow> int \<Rightarrow> int obj \<Rightarrow> int \<Rightarrow> int obj"
where
  "zero_month tz tzl now ob i = obj_set ob (window_key tz tzl now i) 0"

definition monthlyRevenue_init :: "(int \<Rightarrow> int) \<Rightarrow> (int \<Rightarrow> int) \<Rightarrow> int \<Rightarrow> int obj" where
  "monthlyRevenue_init tz tzl now =
     foldl (zero_month tz tzl now) [] [11, 10, 9, 8, 7, 6, 5, 4, 3, 2, 1, 0]"

definition add_payment :: "(int \<Rightarrow> int) \<Rightarrow> int obj \<Rightarrow> payment \<Rightarrow> int obj" where
  "add_payment tz ob p =
     (case paidAt p of
        None \<Rightarrow> ob
      | Some t \<Rightarrow>
          (let monthKey = local_month_key tz t
           in if hasOwnProperty ob monthKey then obj_add ob monthKey (amount p) else ob))"

definition cashTimeline ::
  "(int \<Rightarrow> int) \<Rightarrow> (int \<Rightarrow> int) \<Rightarrow> int \<Rightarrow> payment list \<Rightarrow> int obj"
where
  "cashTimeline tz tzl now payments =
     foldl (add_payment tz) (monthlyRevenue_init tz tzl now) payments"

text \<open>The deposit refunds already paid, summed per lease.\<close>

definition refund_cents :: "payment \<Rightarrow> int" where
  "refund_cents refund =
     \<bar>if amount refund \<noteq> 0 then amount refund
      else (case refundAmount refund of None \<Rightarrow> 0 | Some a \<Rightarrow> a)\<bar>"

definition depositRefundMap :: "payment list \<Rightarrow> int obj" where
  "depositRefundMap db =
     foldl (\<lambda>m refund.
              case applicationId refund of
                None \<Rightarrow> m
              | Some key \<Rightarrow> obj_add m key (refund_cents refund))
       []
       (filter (\<lambda>p. paymentType p = ''refund'' \<and> refundCategory p = Some ''deposit''
                     \<and> applicationId p \<noteq> None) db)"

definition find_leases :: "application list \<Rightarrow> application list" where
  "find_leases apps =
     filter (\<lambda>a. leaseGenerated a \<and> leaseStartDate a \<noteq> Undefined \<and> leaseEndDate a \<noteq> Undefined)
       apps"

record ledger =
  accrual :: "int obj"
  occupancy :: "int obj"
  outstanding :: int
  released :: int

definition merge_entries :: "int obj \<Rightarrow> int obj \<Rightarrow> int obj" where
  "merge_entries timeline entries = foldl (\<lambda>t (monthKey, v). obj_add t monthKey v) timeline entries"

text \<open>The deposit part of the pass over one lease.\<close>

definition deposit_step ::
  "(ustring \<Rightarrow> int option) \<Rightarrow> int obj \<Rightarrow> int \<Rightarrow> application \<Rightarrow> ledger \<Rightarrow> ledger"
where
  "deposit_step legacy refundMap nowDate app l =
     (let depositCents = Math_round ((case depositAmount app of None \<Rightarrow> 0 | Some d \<Rightarrow> d) * 100)
      in if depositCents > 0 then
           (let refundedCents =
                  min (case app_id app of None \<Rightarrow> 0 | Some appId \<Rightarrow> obj_get_or0 refundMap appId)
                      depositCents;
                heldDeposit = max 0 (depositCents - refundedCents);
                leaseEnd = parseDateOnly legacy (js_or (leaseEndDate app) (requestedEndDate app));
                l1 = l\<lparr>released := released l + refundedCents\<rparr>
            in case leaseEnd of
                 None \<Rightarrow> l1
               | Some d \<Rightarrow>
                   if date_less (ValidDate nowDate) d
                   then l1\<lparr>outstanding := outstanding l1 + heldDeposit\<rparr>
                   else l1\<lparr>released := released l1 + heldDeposit\<rparr>)
         else l)"

definition lease_step ::
  "(ustring \<Rightarrow> int option) \<Rightarrow> int obj \<Rightarrow> int \<Rightarrow> ledger \<Rightarrow> application \<Rightarrow> ledger"
where
  "lease_step legacy refundMap nowDate l app =
     (let res = calculateAccrualAllocations legacy app;
          l1 = l\<lparr>accrual := merge_entries (accrual l) (allocations res),
                  occupancy := merge_entries (occupancy l) (nightsByMonth res)\<rparr>
      in deposit_step legacy refundMap nowDate app l1)"

definition empty_ledger :: ledger where
  "empty_ledger = \<lparr>accrual = [], occupancy = [], outstanding = 0, released = 0\<rparr>"

text \<open>A \<^verbatim>\<open>Set\<close> of month keys, in insertion order.\<close>

definition set_add :: "string list \<Rightarrow> string \<Rightarrow> string list" where
  "set_add ks k = (if k \<in> set ks then ks else ks @ [k])"

record period_totals =
  earned :: int
  nights :: int
  monthsCovered :: "string list"

definition count_accrual :: "periodConfig \<Rightarrow> period_totals \<Rightarrow> string \<times> int \<Rightarrow> period_totals" where
  "count_accrual periodConfig t entry =
     (case entry of (monthKey, v) \<Rightarrow>
        if monthMatchesPeriod monthKey periodConfig
        then t\<lparr>earned := earned t + v, monthsCovered := set_add (monthsCovered t) monthKey\<rparr>
        else t)"

definition count_occupancy :: "periodConfig \<Rightarrow> period_totals \<Rightarrow> string \<times> int \<Rightarrow> period_totals" where
  "count_occupancy periodConfig t entry =
     (case entry of (monthKey, v) \<Rightarrow>
        if monthMatchesPeriod monthKey periodConfig
        then t\<lparr>nights := nights t + v, monthsCovered := set_add (monthsCovered t) monthKey\<rparr>
        else t)"

definition periodTotals :: "periodConfig \<Rightarrow> int obj \<Rightarrow> int obj \<Rightarrow> period_totals" where
  "periodTotals periodConfig accrualTimeline occupancyTimeline =
     foldl (count_occupancy periodConfig)
       (foldl (count_accrual periodConfig) \<lparr>earned = 0, nights = 0, monthsCovered = []\<rparr>
          accrualTimeline)
       occupancyTimeline"

definition monthsInPeriod_of :: "periodConfig \<Rightarrow> nat \<Rightarrow> nat \<Rightarrow> nat" where
  "monthsInPeriod_of periodConfig covered accrualMonths =
     (if covered \<noteq> 0 then covered
      else case periodConfig of
             MonthPeriod _ _ \<Rightarrow> 1
           | YearPeriod _ \<Rightarrow> 12
           | AllPeriod \<Rightarrow> if accrualMonths \<noteq> 0 then accrualMonths else 1)"

record accrual_summary =
  totalEarned :: int
  occupiedNights :: int
  averageMonthlyEarned :: int
  averageNightlyRate :: int
  monthsInPeriod :: nat
  outstandingDeposits :: int
  releasedDeposits :: int

definition accrualSummary_of :: "periodConfig \<Rightarrow> ledger \<Rightarrow> accrual_summary" where
  "accrualSummary_of periodConfig l =
     (let t = periodTotals periodConfig (accrual l) (occupancy l);
          months = monthsInPeriod_of periodConfig (length (monthsCovered t))
                     (length (obj_keys (accrual l)))
      in \<lparr>totalEarned = earned t,
          occupiedNights = nights t,
          averageMonthlyEarned =
            (if months > 0 then Math_round (of_int (earned t) / of_nat months) else 0),
          averageNightlyRate =
            (if nights t > 0 then Math_round (of_int (earned t) / of_int (nights t)) else 0),
          monthsInPeriod = months,
          outstandingDeposits = outstanding l,
          releasedDeposits = released l\<rparr>)"

definition window_of :: "int obj \<Rightarrow> int obj \<Rightarrow> int obj" where
  "window_of monthlyRevenue timeline =
     foldl (\<lambda>ob monthKey. obj_set ob monthKey (obj_get_or0 timeline monthKey)) []
       (obj_keys monthlyRevenue)"

record revenue_summary =
  summary :: cash_summary
  monthlyRevenue :: "int obj"
  accrualMonthlyRevenue :: "int obj"
  occupancyByMonth :: "int obj"
  accrualSummary :: accrual_summary
  accrualTimeline :: "int obj"
  occupancyTimeline :: "int obj"

text \<open>\<^verbatim>\<open>const { period = 'all', year, month } = req.query\<close>\<close>

definition requested_period :: "query \<Rightarrow> ustring" where
  "requested_period q = (case q_period q of None \<Rightarrow> units ''all'' | Some p \<Rightarrow> p)"

definition qualifying_payments ::
  "(ustring \<Rightarrow> int option) \<Rightarrow> payment list \<Rightarrow> query \<Rightarrow> error + payment list"
where
  "qualifying_payments legacy db q =
     find_succeeded db (dateFilter legacy (requested_period q) (q_year q) (q_month q))"

definition lease_ledger ::
  "(ustring \<Rightarrow> int option) \<Rightarrow> payment list \<Rightarrow> application list \<Rightarrow> int \<Rightarrow> ledger"
where
  "lease_ledger legacy db apps now =
     foldl (lease_step legacy (depositRefundMap db) now) empty_ledger (find_leases apps)"

definition revenueSummary ::
  "(ustring \<Rightarrow> int option) \<Rightarrow> (int \<Rightarrow> int) \<Rightarrow> (int \<Rightarrow> int) \<Rightarrow> int \<Rightarrow> payment list
     \<Rightarrow> application list \<Rightarrow> query \<Rightarrow> error + revenue_summary"
where
  "revenueSummary legacy tz tzl now db apps q =
     (let periodConfig = getPeriodConfig (requested_period q) (q_year q) (q_month q)
      in case qualifying_payments legacy db q of
           Inl e \<Rightarrow> Inl e
         | Inr payments \<Rightarrow>
             (let cash = cashTimeline tz tzl now payments;
                  l = lease_ledger legacy db apps now
              in Inr \<lparr>summary = cashSummary payments,
                      monthlyRevenue = cash,
                      accrualMonthlyRevenue = window_of cash (accrual l),
                      occupancyByMonth = window_of cash (occupancy l),
                      accrualSummary = accrualSummary_of periodConfig l,
                      accrualTimeline = accrual l,
                      occupancyTimeline = occupancy l\<rparr>))"

section \<open>The allocation, month by month\<close>

text \<open>
  What the allocator is to compute, stated on calendar dates and not on the loop. A
  calendar date is a day number, the time of day stripped, and a month is its index
  \<open>k\<close>, twelve times the year plus the month from 0. The definitions give the key of
  month \<open>k\<close>, its last day, the active span of a lease in it, the active days, the
  earned cents as the double arithmetic of the allocator rounds them, and the allocation
  made of the months from the one the lease starts in to the one it ends in that have an
  active span. \<open>round_half_up_cents\<close> is the exact quotient rounded half up.
\<close>

definition month_key :: "int \<Rightarrow> string" where
  "month_key k = Number_toString (k div 12) @ ''-'' @ padMonth (Some (k mod 12 + 1))"

definition lastDay :: "int \<Rightarrow> int" where
  "lastDay k = firstDay (k + 1) - 1"

definition activeStart :: "int \<Rightarrow> int \<Rightarrow> int" where
  "activeStart startDay k = max (firstDay k) startDay"

definition activeEnd :: "int \<Rightarrow> int \<Rightarrow> int" where
  "activeEnd endDay k = min (lastDay k) endDay"

definition activeDays :: "int \<Rightarrow> int \<Rightarrow> int \<Rightarrow> int" where
  "activeDays startDay endDay k = activeEnd endDay k - activeStart startDay k + 1"

definition double_cents :: "rat \<Rightarrow> int \<Rightarrow> int \<Rightarrow> int" where
  "double_cents monthlyRent days daysInMonth =
     Math_round (fl (fl (monthlyRent * fl (of_int days / of_int daysInMonth)) * 100))"

definition round_half_up_cents :: "rat \<Rightarrow> int \<Rightarrow> int \<Rightarrow> int" where
  "round_half_up_cents monthlyRent days daysInMonth =
     Math_round (monthlyRent * 100 * of_int days / of_int daysInMonth)"

definition monthCents :: "rat \<Rightarrow> int \<Rightarrow> int \<Rightarrow> int \<Rightarrow> int" where
  "monthCents monthlyRent startDay endDay k =
     double_cents monthlyRent (activeDays startDay endDay k) (monthLength k)"

definition month_active :: "int \<Rightarrow> int \<Rightarrow> int \<Rightarrow> bool" where
  "month_active startDay endDay k = (\<not> activeEnd endDay k < activeStart startDay k)"

definition lease_months :: "int \<Rightarrow> int \<Rightarrow> int list" where
  "lease_months startDay endDay =
     filter (month_active startDay endDay) [monthIndex startDay..monthIndex endDay]"

definition expected_allocation :: "rat \<Rightarrow> int \<Rightarrow> int \<Rightarrow> allocation" where
  "expected_allocation monthlyRent startDay endDay =
     \<lparr>allocations =
        map (\<lambda>k. (month_key k, monthCents monthlyRent startDay endDay k))
          (lease_months startDay endDay),
      nightsByMonth =
        map (\<lambda>k. (month_key k, activeDays startDay endDay k))
          (lease_months startDay endDay)\<rparr>"

text \<open>The entries of an accumulator for a list of months.\<close>

definition month_entries :: "(int \<Rightarrow> int) \<Rightarrow> int list \<Rightarrow> int obj" where
  "month_entries f ks = map (\<lambda>k. (month_key k, f k)) ks"

text \<open>The start and end of a lease when both are present and valid dates.\<close>

definition lease_dates :: "(ustring \<Rightarrow> int option) \<Rightarrow> application \<Rightarrow> (int \<times> int) option" where
  "lease_dates legacy app =
     (case (parseDateOnly legacy (js_or (leaseStartDate app) (requestedStartDate app)),
            parseDateOnly legacy (js_or (leaseEndDate app) (requestedEndDate app))) of
        (Some (ValidDate s), Some (ValidDate e)) \<Rightarrow> Some (s, e)
      | _ \<Rightarrow> None)"

text \<open>A day number held between the first day of a lease and the day after its last.\<close>

definition clamp_day :: "int \<Rightarrow> int \<Rightarrow> int \<Rightarrow> int" where
  "clamp_day ds de x = max ds (min x (de + 1))"

text \<open>
  The length of a lease in months, on its calendar dates: each month the lease touches
  counts by the share of its days that the lease is active in.
\<close>

definition month_share :: "int \<Rightarrow> int \<Rightarrow> int \<Rightarrow> rat" where
  "month_share startDay endDay k = of_int (activeDays startDay endDay k) / of_int (monthLength k)"

definition monthsSpanned :: "int \<Rightarrow> int \<Rightarrow> rat" where
  "monthsSpanned startDay endDay =
     sum_list (map (month_share startDay endDay) (lease_months startDay endDay))"

text \<open>
  A date field that is missing or cannot be read, and a lease the allocator passes over.
\<close>

definition unusable_date :: "(ustring \<Rightarrow> int option) \<Rightarrow> js_value \<Rightarrow> bool" where
  "unusable_date legacy v =
     (case v of
        Undefined \<Rightarrow> True
      | DateObject d \<Rightarrow> d = InvalidDate
      | StringValue s \<Rightarrow> s = [] \<or> (\<not> is_date_only s \<and> Date_parse legacy s = None))"

definition malformed_lease :: "(ustring \<Rightarrow> int option) \<Rightarrow> application \<Rightarrow> bool" where
  "malformed_lease legacy app =
     (let startValue = js_or (leaseStartDate app) (requestedStartDate app);
          endValue = js_or (leaseEndDate app) (requestedEndDate app)
      in unusable_date legacy startValue \<or> unusable_date legacy endValue
         \<or> (case (parseDateOnly legacy startValue, parseDateOnly legacy endValue) of
               (Some s, Some e) \<Rightarrow> date_less e s
             | _ \<Rightarrow> False)
         \<or> rentalAmount app = None \<or> rentalAmount app = Some 0)"


definition months_touched :: "periodConfig \<Rightarrow> int obj \<Rightarrow> int obj \<Rightarrow> string list" where
  "months_touched periodConfig earnedByMonth nightsOfMonth =
     remdups (filter (\<lambda>k. monthMatchesPeriod k periodConfig)
       (obj_keys earnedByMonth @ obj_keys nightsOfMonth))"

definition matching_total :: "periodConfig \<Rightarrow> int obj \<Rightarrow> int" where
  "matching_total periodConfig timeline =
     sum_list (map snd (filter (\<lambda>e. monthMatchesPeriod (fst e) periodConfig) timeline))"

definition months_back :: "int \<Rightarrow> int \<Rightarrow> string" where
  "months_back currentMonth i = month_key (currentMonth - i)"

definition trailing_window :: "int \<Rightarrow> string list" where
  "trailing_window currentMonth =
     map (months_back currentMonth) [11, 10, 9, 8, 7, 6, 5, 4, 3, 2, 1, 0]"

definition paid_in_month :: "(int \<Rightarrow> int) \<Rightarrow> string \<Rightarrow> payment \<Rightarrow> bool" where
  "paid_in_month tz monthKey p =
     (case paidAt p of None \<Rightarrow> False | Some t \<Rightarrow> local_month_key tz t = monthKey)"

text \<open>
  The month that holds a time value on the server's clock, and what ties the two
  functions of a time zone together: local midnight on the first day of month \<open>k\<close>,
  taken to a time value and read back on the clock, is in month \<open>k\<close>.
\<close>

definition local_month :: "(int \<Rightarrow> int) \<Rightarrow> int \<Rightarrow> int" where
  "local_month tz t = monthIndex (Day (t + tz t))"

definition zone_keeps_month :: "(int \<Rightarrow> int) \<Rightarrow> (int \<Rightarrow> int) \<Rightarrow> int \<Rightarrow> bool" where
  "zone_keeps_month tz tzl k = (local_month tz (UTC_of_local tzl (firstDay k * msPerDay)) = k)"

definition window_months :: "int \<Rightarrow> int list" where
  "window_months currentMonth =
     map (\<lambda>i. currentMonth - i) [11, 10, 9, 8, 7, 6, 5, 4, 3, 2, 1, 0]"

text \<open>
  The bounds of the payment query. The text of a bound is the year, the month and
  \<^verbatim>\<open>01\<close> joined by dashes, as the handler writes it from a year of four digits and a
  month with no leading zero. With a month of two digits the text is a date-only ISO
  form and stands for midnight UTC; with a month of one digit it is not, and Node reads
  it as local midnight; a month that is not from 1 to 12 gives an invalid date.
  \<open>node_reads\<close> says that the runtime reads the text of one bound as Node does.
\<close>

definition bound_text :: "int \<Rightarrow> int \<Rightarrow> ustring" where
  "bound_text y n = units (Number_toString y @ ''-'' @ Number_toString n @ ''-01'')"

definition utc_midnight :: "int \<Rightarrow> int \<Rightarrow> int" where
  "utc_midnight y n = firstDay (12 * y + n - 1) * msPerDay"

definition local_midnight :: "(int \<Rightarrow> int) \<Rightarrow> int \<Rightarrow> int \<Rightarrow> int" where
  "local_midnight tzl y n = UTC_of_local tzl (utc_midnight y n)"

definition month_bound :: "(int \<Rightarrow> int) \<Rightarrow> int \<Rightarrow> int \<Rightarrow> int" where
  "month_bound tzl y n = (if n < 10 then local_midnight tzl y n else utc_midnight y n)"

definition node_reads :: "(ustring \<Rightarrow> int option) \<Rightarrow> (int \<Rightarrow> int) \<Rightarrow> int \<Rightarrow> int \<Rightarrow> bool" where
  "node_reads legacy tzl y n =
     (if 1 \<le> n \<and> n \<le> 9 then legacy (bound_text y n) = Some (local_midnight tzl y n)
      else if 10 \<le> n \<and> n \<le> 12 then True
      else legacy (bound_text y n) = None)"

definition succeeded_between :: "int \<Rightarrow> int \<Rightarrow> payment list \<Rightarrow> payment list" where
  "succeeded_between lo hi db = filter (\<lambda>p. status p = ''succeeded'' \<and> in_range lo hi p) db"

section \<open>Sample data\<close>

text \<open>A runtime that reads no date string beyond the date-only ISO form.\<close>

definition strict_parse :: "ustring \<Rightarrow> int option" where
  "strict_parse s = None"

text \<open>A server whose clock is on UTC.\<close>

definition utc :: "int \<Rightarrow> int" where
  "utc t = 0"

text \<open>
  A server on New York time in 2024: five hours behind UTC, and four from 10 March at
  07:00 UTC to 3 November at 06:00 UTC. A local time that the change skips or repeats
  is read with the offset in force before the change.
\<close>

definition new_york :: "int \<Rightarrow> int" where
  "new_york t =
     (if 1710054000000 \<le> t \<and> t < 1730613600000 then - 14400000 else - 18000000)"

definition new_york_local :: "int \<Rightarrow> int" where
  "new_york_local t =
     (if 1710054000000 \<le> t + 14400000 \<and> t + 14400000 < 1730613600000
      then - 14400000 else - 18000000)"

text \<open>
  A runtime that, beyond the date-only ISO form, reads a year of four digits from 100
  on, a month of one or two digits and a day of two digits joined by dashes the way Node
  does: as local midnight of that day when the month is from 1 to 12 and the day from 1
  to 31, and as no date otherwise.
\<close>

definition node_legacy :: "(int \<Rightarrow> int) \<Rightarrow> ustring \<Rightarrow> int option" where
  "node_legacy tzl s =
     (let ms = takeWhile is_digit (drop 5 s);
          ds = drop (6 + length ms) s;
          y = digits_value (take 4 s);
          m = digits_value ms;
          d = digits_value ds
      in if length s = 8 + length ms \<and> list_all is_digit (take 4 s) \<and> s ! 4 = 45
            \<and> (length ms = 1 \<or> length ms = 2) \<and> s ! (5 + length ms) = 45
            \<and> list_all is_digit ds \<and> 100 \<le> y \<and> 1 \<le> m \<and> m \<le> 12 \<and> 1 \<le> d \<and> d \<le> 31
         then Some (UTC_of_local tzl (MakeDay y (m - 1) d * msPerDay))
         else None)"

text \<open>A lease from 15 January to 10 February 2024 at 1,000.00 a month, deposit 10.00.\<close>

definition lease_jan_feb :: application where
  "lease_jan_feb =
     \<lparr>app_id = Some ''a1'', leaseGenerated = True,
      leaseStartDate = StringValue (units ''2024-01-15''),
      leaseEndDate = StringValue (units ''2024-02-10''),
      requestedStartDate = Undefined, requestedEndDate = Undefined,
      rentalAmount = Some 1000, depositAmount = Some 10\<rparr>"

definition lease_zero_rent :: application where
  "lease_zero_rent = lease_jan_feb\<lparr>rentalAmount := Some 0\<rparr>"

definition lease_inverted :: application where
  "lease_inverted =
     lease_jan_feb\<lparr>leaseStartDate := StringValue (units ''2024-02-10''),
                   leaseEndDate := StringValue (units ''2024-01-15'')\<rparr>"

definition lease_no_end :: application where
  "lease_no_end = lease_jan_feb\<lparr>leaseEndDate := StringValue (units ''soon'')\<rparr>"

text \<open>
  A lease stored as two \<^verbatim>\<open>Date\<close> objects with a time of day: from 2024-01-31T05:00Z to
  2024-02-01T05:00Z.
\<close>

definition lease_with_hours :: application where
  "lease_with_hours =
     lease_jan_feb\<lparr>leaseStartDate := DateObject (ValidDate 1706677200000),
                   leaseEndDate := DateObject (ValidDate 1706763600000)\<rparr>"

text \<open>
  Stored payments: a rent payment of 100.00 with no fee on 15 June 2024, a deposit refund of
  50.00 on 16 June, a late fee of 25.00 carrying a fee of 1.00 on 16 May, and a pending copy
  of the first. The clock stands at noon UTC on 20 June 2024.
\<close>

text \<open>
  A lease of 17 of the 28 days of February 2023, from the 12th to the 28th, at 1,522.50
  a month: the exact share of the rent is 924.375, a tie between two cents. And a lease
  of the year 50, from 10 January to 5 February, stored as two \<^verbatim>\<open>Date\<close> objects.
\<close>

definition lease_half_cent :: application where
  "lease_half_cent =
     lease_jan_feb\<lparr>leaseStartDate := StringValue (units ''2023-02-12''),
                   leaseEndDate := StringValue (units ''2023-02-28''),
                   rentalAmount := Some (15225 / 10)\<rparr>"

definition lease_year_50 :: application where
  "lease_year_50 =
     lease_jan_feb\<lparr>leaseStartDate := DateObject (ValidDate (- 60588518400000)),
                   leaseEndDate := DateObject (ValidDate (- 60586272000000))\<rparr>"

definition pay_rent :: payment where
  "pay_rent = \<lparr>amount = 10000, creditCardFee = None, paymentType = ''rent'',
     status = ''succeeded'', paidAt = Some 1718409600000, refundCategory = None,
     applicationId = Some ''a1'', refundAmount = None\<rparr>"

definition pay_refund :: payment where
  "pay_refund = \<lparr>amount = - 5000, creditCardFee = None, paymentType = ''refund'',
     status = ''succeeded'', paidAt = Some 1718496000000, refundCategory = Some ''deposit'',
     applicationId = Some ''a1'', refundAmount = None\<rparr>"

definition pay_with_fee :: payment where
  "pay_with_fee = \<lparr>amount = 2500, creditCardFee = Some 100, paymentType = ''late_fee'',
     status = ''succeeded'', paidAt = Some 1715817600000, refundCategory = None,
     applicationId = None, refundAmount = None\<rparr>"

definition pay_pending :: payment where
  "pay_pending = pay_rent\<lparr>status := ''pending''\<rparr>"

definition sample_db :: "payment list" where
  "sample_db = [pay_rent, pay_refund, pay_with_fee, pay_pending]"

definition sample_now :: int where
  "sample_now = 1718884800000"

definition all_time :: query where
  "all_time = \<lparr>q_period = None, q_year = None, q_month = None\<rparr>"

definition year_2023 :: query where
  "year_2023 =
     \<lparr>q_period = Some (units ''year''), q_year = Some (units ''2023''), q_month = None\<rparr>"

text \<open>
  The requests the revenue page sends for May, September and December 2024, and a
  payment of 7.00 made at 02:00 UTC on 1 May 2024, which is 22:00 on 30 April in New York.
\<close>

definition month_request :: "int \<Rightarrow> int \<Rightarrow> query" where
  "month_request y m =
     \<lparr>q_period = Some (units ''month''), q_year = Some (units (Number_toString y)),
      q_month = Some (units (Number_toString m))\<rparr>"

definition pay_april_night :: payment where
  "pay_april_night = pay_rent\<lparr>amount := 700, paidAt := Some 1714528800000\<rparr>"

definition window_2024_06 :: "string list" where
  "window_2024_06 =
     [''2023-07'', ''2023-08'', ''2023-09'', ''2023-10'', ''2023-11'', ''2023-12'',
      ''2024-01'', ''2024-02'', ''2024-03'', ''2024-04'', ''2024-05'', ''2024-06'']"

definition summary_all_time :: revenue_summary where
  "summary_all_time =
     \<lparr>summary =
        \<lparr>totalRevenue = 7500, netRevenue = 7400, totalFees = 100, refundsTotal = 5000,
         paymentCount = 3, averagePayment = 2500\<rparr>,
      monthlyRevenue =
        [(''2023-07'', 0), (''2023-08'', 0), (''2023-09'', 0), (''2023-10'', 0),
         (''2023-11'', 0), (''2023-12'', 0), (''2024-01'', 0), (''2024-02'', 0),
         (''2024-03'', 0), (''2024-04'', 0), (''2024-05'', 2500), (''2024-06'', 5000)],
      accrualMonthlyRevenue =
        [(''2023-07'', 0), (''2023-08'', 0), (''2023-09'', 0), (''2023-10'', 0),
         (''2023-11'', 0), (''2023-12'', 0), (''2024-01'', 54839), (''2024-02'', 34483),
         (''2024-03'', 0), (''2024-04'', 0), (''2024-05'', 0), (''2024-06'', 0)],
      occupancyByMonth =
        [(''2023-07'', 0), (''2023-08'', 0), (''2023-09'', 0), (''2023-10'', 0),
         (''2023-11'', 0), (''2023-12'', 0), (''2024-01'', 17), (''2024-02'', 10),
         (''2024-03'', 0), (''2024-04'', 0), (''2024-05'', 0), (''2024-06'', 0)],
      accrualSummary =
        \<lparr>totalEarned = 89322, occupiedNights = 27, averageMonthlyEarned = 44661,
         averageNightlyRate = 3308, monthsInPeriod = 2, outstandingDeposits = 0,
         releasedDeposits = 1000\<rparr>,
      accrualTimeline = [(''2024-01'', 54839), (''2024-02'', 34483)],
      occupancyTimeline = [(''2024-01'', 17), (''2024-02'', 10)]\<rparr>"

definition summary_year_2023 :: revenue_summary where
  "summary_year_2023 =
     summary_all_time
       \<lparr>summary :=
          \<lparr>totalRevenue = 0, netRevenue = 0, totalFees = 0, refundsTotal = 0,
           paymentCount = 0, averagePayment = 0\<rparr>,
        monthlyRevenue :=
          [(''2023-07'', 0), (''2023-08'', 0), (''2023-09'', 0), (''2023-10'', 0),
           (''2023-11'', 0), (''2023-12'', 0), (''2024-01'', 0), (''2024-02'', 0),
           (''2024-03'', 0), (''2024-04'', 0), (''2024-05'', 0), (''2024-06'', 0)],
        accrualSummary :=
          \<lparr>totalEarned = 0, occupiedNights = 0, averageMonthlyEarned = 0,
           averageNightlyRate = 0, monthsInPeriod = 12, outstandingDeposits = 0,
           releasedDeposits = 1000\<rparr>\<rparr>"



text \<open>What the handler answers for all time when no lease is stored.\<close>

definition summary_no_leases :: revenue_summary where
  "summary_no_leases =
     summary_all_time
       \<lparr>accrualMonthlyRevenue := monthlyRevenue summary_year_2023,
        occupancyByMonth := monthlyRevenue summary_year_2023,
        accrualSummary :=
          \<lparr>totalEarned = 0, occupiedNights = 0, averageMonthlyEarned = 0,
           averageNightlyRate = 0, monthsInPeriod = 1, outstandingDeposits = 0,
           releasedDeposits = 0\<rparr>,
        accrualTimeline := [],
        occupancyTimeline := []\<rparr>"

text \<open>
  The payments of a server in New York, and what its handler answers for all time: the
  payment of 02:00 UTC on 1 May is counted in April.
\<close>

definition new_york_db :: "payment list" where
  "new_york_db = [pay_with_fee, pay_april_night, pay_rent]"

definition summary_new_york :: revenue_summary where
  "summary_new_york =
     summary_all_time
       \<lparr>summary :=
          \<lparr>totalRevenue = 13200, netRevenue = 13100, totalFees = 100, refundsTotal = 0,
           paymentCount = 3, averagePayment = 4400\<rparr>,
        monthlyRevenue :=
          [(''2023-07'', 0), (''2023-08'', 0), (''2023-09'', 0), (''2023-10'', 0),
           (''2023-11'', 0), (''2023-12'', 0), (''2024-01'', 0), (''2024-02'', 0),
           (''2024-03'', 0), (''2024-04'', 700), (''2024-05'', 2500), (''2024-06'', 10000)]\<rparr>"

section \<open>Facts about month keys\<close>

lemma digit_cases:
  fixes d :: int
  assumes "0 \<le> d" "d < 10"
  obtains "d = 0" | "d = 1" | "d = 2" | "d = 3" | "d = 4" | "d = 5" | "d = 6" | "d = 7"
    | "d = 8" | "d = 9"
  using assms by atomize_elim arith

lemma units_append: "units (a @ b) = units a @ units b"
  by (simp add: units_def)

lemma units_length: "length (units s) = length s"
  by (simp add: units_def)

lemma digit_char_val:
  assumes "0 \<le> d" "d < 10"
  shows "of_char (digit_char d) = 48 + d"
  using assms by (cases d rule: digit_cases) (simp_all add: digit_char_def)

lemma digit_char_digit: "digit_char d \<in> set ''0123456789''"
  by (simp add: digit_char_def)

lemma digit_char_unit: "is_digit (of_char (digit_char d))"
  by (simp add: digit_char_def is_digit_def)

lemma digits_value_snoc: "digits_value (ds @ [c]) = 10 * digits_value ds + (c - 48)"
  by (simp add: digits_value_def)

lemma digits_value_digits_of: "0 \<le> n \<Longrightarrow> digits_value (units (digits_of n)) = n"
proof (induction n rule: digits_of.induct)
  case (1 n)
  show ?case
  proof (cases "n < 10")
    case True
    then show ?thesis
      using "1.prems"
      by (subst digits_of.simps) (simp add: digits_value_def units_def digit_char_val)
  next
    case False
    then have "digits_value (units (digits_of (n div 10))) = n div 10"
      using 1 by simp
    then show ?thesis
      using False
      by (subst digits_of.simps) (simp add: units_append digits_value_snoc units_def digit_char_val)
  qed
qed

lemma digits_of_digits: "set (digits_of n) \<subseteq> set ''0123456789''" "digits_of n \<noteq> []"
proof (induction n rule: digits_of.induct)
  case (1 n)
  {
    case 1
    show ?case
      using "1.IH" digit_char_digit [of n] digit_char_digit [of "n mod 10"]
      by (subst digits_of.simps) auto
  next
    case 2
    show ?case by (subst digits_of.simps) simp
  }
qed

lemma digits_of_units: "list_all is_digit (units (digits_of n))"
proof (induction n rule: digits_of.induct)
  case (1 n)
  show ?case
    using 1 by (subst digits_of.simps) (simp add: units_def digit_char_unit)
qed

lemma digits_of_inj: "0 \<le> m \<Longrightarrow> 0 \<le> n \<Longrightarrow> digits_of m = digits_of n \<Longrightarrow> m = n"
  by (metis digits_value_digits_of)


lemma digits_of_hd: "hd (digits_of n) \<in> set ''0123456789''"
  using digits_of_digits [of n] by (cases "digits_of n") auto

lemma Number_toString_hd: "hd (Number_toString n) = CHR ''-'' \<longleftrightarrow> n < 0"
  using digits_of_hd [of n] by (auto simp: Number_toString_def)

lemma Number_toString_inj: "Number_toString m = Number_toString n \<Longrightarrow> m = n"
proof -
  assume a: "Number_toString m = Number_toString n"
  then have s: "m < 0 \<longleftrightarrow> n < 0" using Number_toString_hd by metis
  show ?thesis
  proof (cases "m < 0")
    case True
    then show ?thesis using a s digits_of_inj [of "- m" "- n"]
      by (simp add: Number_toString_def)
  next
    case False
    then show ?thesis using a s digits_of_inj [of m n]
      by (simp add: Number_toString_def)
  qed
qed

lemma padMonth_two_digits:
  assumes "0 \<le> v" "v < 100"
  shows "padMonth (Some v) = [digit_char (v div 10), digit_char (v mod 10)]"
proof (cases "v < 10")
  case True
  then have "digits_of v = [digit_char v]"
    by (subst digits_of.simps) simp
  moreover have "v div 10 = 0" "v mod 10 = v" using True assms by simp_all
  moreover have "digit_char 0 = CHR ''0''" by (simp add: digit_char_def)
  ultimately show ?thesis using assms
    by (simp add: padMonth_def padStart_def String_of_def Number_toString_def)
next
  case False
  then have nv: "\<not> v < 10" "v div 10 < 10" using assms by linarith+
  have "digits_of v = digits_of (v div 10) @ [digit_char (v mod 10)]"
    using nv(1) by (subst digits_of.simps) simp
  moreover have "digits_of (v div 10) = [digit_char (v div 10)]"
    using nv(2) by (subst digits_of.simps) simp
  ultimately show ?thesis using assms
    by (simp add: padMonth_def padStart_def String_of_def Number_toString_def)
qed

lemma digit_char_inj:
  assumes "0 \<le> a" "a < 10" "0 \<le> b" "b < 10" "digit_char a = digit_char b"
  shows "a = b"
proof -
  have "(of_char (digit_char a) :: int) = of_char (digit_char b)" using assms(5) by simp
  then show ?thesis using assms(1-4) by (simp add: digit_char_val)
qed

lemma padMonth_inj:
  assumes "0 \<le> v" "v < 100" "0 \<le> w" "w < 100" "padMonth (Some v) = padMonth (Some w)"
  shows "v = w"
proof -
  have r: "0 \<le> v div 10" "v div 10 < 10" "0 \<le> w div 10" "w div 10 < 10"
    "0 \<le> v mod 10" "v mod 10 < 10" "0 \<le> w mod 10" "w mod 10 < 10"
    using assms by simp_all
  have "digit_char (v div 10) = digit_char (w div 10)" "digit_char (v mod 10) = digit_char (w mod 10)"
    using assms(5) by (simp_all add: padMonth_two_digits assms(1-4))
  then have "v div 10 = w div 10" "v mod 10 = w mod 10"
    using r digit_char_inj by blast+
  then show ?thesis by (metis div_mult_mod_eq)
qed

lemma padMonth_length: "0 \<le> v \<Longrightarrow> v < 100 \<Longrightarrow> length (padMonth (Some v)) = 2"
  by (simp add: padMonth_two_digits)

lemma month_key_inj: "month_key k = month_key k' \<Longrightarrow> k = k'"
proof -
  assume a: "month_key k = month_key k'"
  have r: "0 \<le> k mod 12 + 1" "k mod 12 + 1 < 100" "0 \<le> k' mod 12 + 1" "k' mod 12 + 1 < 100"
    by simp_all
  have l: "length (padMonth (Some (k mod 12 + 1))) = length (padMonth (Some (k' mod 12 + 1)))"
    using r by (simp add: padMonth_length)
  from a have "(Number_toString (k div 12) @ ''-'') @ padMonth (Some (k mod 12 + 1))
      = (Number_toString (k' div 12) @ ''-'') @ padMonth (Some (k' mod 12 + 1))"
    by (simp add: month_key_def)
  then have "Number_toString (k div 12) @ ''-'' = Number_toString (k' div 12) @ ''-''"
    and p: "padMonth (Some (k mod 12 + 1)) = padMonth (Some (k' mod 12 + 1))"
    using l by (metis append_eq_append_conv)+
  then have "k div 12 = k' div 12" using Number_toString_inj by simp
  moreover have "k mod 12 = k' mod 12" using padMonth_inj [OF r p] by simp
  ultimately show ?thesis by (metis mult_div_mod_eq)
qed

section \<open>Facts about the allocator\<close>

lemma Math_round_of_int: "Math_round (of_int n) = n"
  by (simp add: Math_round_def) linarith

lemma small_integers_are_doubles: "list_all is_double (map of_int [0..31])"
  by code_simp

lemma fl_small:
  assumes "0 \<le> n" "n \<le> 31"
  shows "fl (of_int n) = of_int n"
proof -
  have "n \<in> set [0..31]" using assms by simp
  then have "(of_int n :: rat) \<in> of_int ` set [0..31]" by (rule imageI)
  then have "(of_int n :: rat) \<in> set (map of_int [0..31])" by (simp only: set_map)
  then show ?thesis
    using small_integers_are_doubles by (auto simp: list_all_iff is_double_def)
qed

lemma Math_round_days:
  assumes "0 \<le> n" "n \<le> 31"
  shows "Math_round (fl (of_int (n * msPerDay) / of_int DAY_IN_MS)) = n"
proof -
  have "(of_int (n * msPerDay) / of_int DAY_IN_MS :: rat) = of_int n"
    by (simp add: msPerDay_def DAY_IN_MS_def)
  then show ?thesis by (simp only: fl_small [OF assms] Math_round_of_int)
qed

lemma monthIndex_firstDay: "monthIndex (firstDay k) = k"
  by (rule monthIndex_unique) (use firstDay_strict_mono [of k "k + 1"] in simp_all)

lemma monthIndex_mono: "d \<le> d' \<Longrightarrow> monthIndex d \<le> monthIndex d'"
proof (rule ccontr)
  assume d: "d \<le> d'" and "\<not> monthIndex d \<le> monthIndex d'"
  then have "firstDay (monthIndex d' + 1) \<le> firstDay (monthIndex d)"
    by (intro firstDay_mono) simp
  then show False
    using monthIndex_lower [of d] monthIndex_upper [of d'] d by linarith
qed

lemma Day_mono: "t \<le> t' \<Longrightarrow> Day t \<le> Day t'"
  by (simp add: Day_def msPerDay_def zdiv_mono1)

lemma first_of_month:
  assumes "1200 \<le> k"
  shows "getUTCFullYear (firstDay k * msPerDay) = k div 12"
    and "getUTCMonth (firstDay k * msPerDay) = k mod 12"
    and "next_month (firstDay k * msPerDay) = firstDay (k + 1) * msPerDay"
    and "Date_UTC (k div 12) (k mod 12 + 1) 0 = lastDay k * msPerDay"
    and "getMonthKey (firstDay k * msPerDay) = month_key k"
proof -
  have y: "getUTCFullYear (firstDay k * msPerDay) = k div 12"
    using monthIndex_div(1) [of "firstDay k"]
    by (simp add: getUTCFullYear_def Day_mult monthIndex_firstDay)
  have m: "getUTCMonth (firstDay k * msPerDay) = k mod 12"
    using monthIndex_div(2) [of "firstDay k"]
    by (simp add: getUTCMonth_def Day_mult monthIndex_firstDay)
  have c: "\<not> (0 \<le> k div 12 \<and> k div 12 \<le> 99)" using assms by linarith
  have e: "12 * (k div 12) + (k mod 12 + 1) = k + 1" by simp
  show "getUTCFullYear (firstDay k * msPerDay) = k div 12" by (rule y)
  show "getUTCMonth (firstDay k * msPerDay) = k mod 12" by (rule m)
  show "next_month (firstDay k * msPerDay) = firstDay (k + 1) * msPerDay"
    unfolding next_month_def y m Date_UTC_firstDay using c by (simp only: if_False e) simp
  show "Date_UTC (k div 12) (k mod 12 + 1) 0 = lastDay k * msPerDay"
    unfolding Date_UTC_firstDay lastDay_def using c by (simp only: if_False e) simp
  show "getMonthKey (firstDay k * msPerDay) = month_key k"
    by (simp add: getMonthKey_def month_key_def y m)
qed

lemma month_span: "lastDay k - firstDay k = monthLength k - 1"
  unfolding lastDay_def firstDay_next by simp

lemma month_step_at_first:
  assumes "1200 \<le> k"
  shows "month_step (ds * msPerDay) (de * msPerDay) r (firstDay k * msPerDay) acc =
     (if month_active ds de k
      then \<lparr>allocations = obj_add (allocations acc) (month_key k) (monthCents r ds de k),
            nightsByMonth = obj_add (nightsByMonth acc) (month_key k) (activeDays ds de k)\<rparr>
      else acc)"
proof -
  have p: "0 < msPerDay" by (simp add: msPerDay_def)
  have as: "max (firstDay k * msPerDay) (ds * msPerDay) = activeStart ds k * msPerDay"
    using p by (simp add: activeStart_def max_def)
  have ae: "min (lastDay k * msPerDay) (de * msPerDay) = activeEnd de k * msPerDay"
    using p by (simp add: activeEnd_def min_def)
  have lt: "activeEnd de k * msPerDay < activeStart ds k * msPerDay
      \<longleftrightarrow> activeEnd de k < activeStart ds k"
    using p by simp
  have ml: "28 \<le> monthLength k" "monthLength k \<le> 31"
    using monthLength_bounds [of k] by simp_all
  have "lastDay k * msPerDay - firstDay k * msPerDay = (lastDay k - firstDay k) * msPerDay"
    by (simp add: left_diff_distrib)
  then have "lastDay k * msPerDay - firstDay k * msPerDay = (monthLength k - 1) * msPerDay"
    by (simp only: month_span)
  then have dim: "Math_round (fl (of_int (lastDay k * msPerDay - firstDay k * msPerDay)
      / of_int DAY_IN_MS)) + 1 = monthLength k"
    using Math_round_days [of "monthLength k - 1"] ml by simp
  have step: "month_step (ds * msPerDay) (de * msPerDay) r (firstDay k * msPerDay) acc =
     (if activeEnd de k < activeStart ds k then acc
      else
        (let n = Math_round (fl (of_int (activeEnd de k * msPerDay - activeStart ds k * msPerDay)
                     / of_int DAY_IN_MS)) + 1
         in if n \<le> 0 \<or> monthLength k \<le> 0 then acc
            else \<lparr>allocations = obj_add (allocations acc) (month_key k)
                     (double_cents r n (monthLength k)),
                  nightsByMonth = obj_add (nightsByMonth acc) (month_key k) n\<rparr>))"
    unfolding month_step_def Let_def first_of_month [OF assms] as ae lt dim double_cents_def
    by (rule refl)
  show ?thesis
  proof (cases "month_active ds de k")
    case False
    then show ?thesis by (simp add: step month_active_def)
  next
    case True
    then have a: "activeStart ds k \<le> activeEnd de k" by (simp add: month_active_def)
    have "activeEnd de k \<le> lastDay k" "firstDay k \<le> activeStart ds k"
      by (simp_all add: activeEnd_def activeStart_def)
    then have b: "activeEnd de k - activeStart ds k \<le> 31"
      using month_span [of k] ml by linarith
    have "activeEnd de k * msPerDay - activeStart ds k * msPerDay
        = (activeEnd de k - activeStart ds k) * msPerDay"
      by (simp add: algebra_simps)
    then have n: "Math_round (fl (of_int (activeEnd de k * msPerDay - activeStart ds k * msPerDay)
        / of_int DAY_IN_MS)) + 1 = activeDays ds de k"
      using Math_round_days [of "activeEnd de k - activeStart ds k"] a b
      by (simp add: activeDays_def)
    have pos: "\<not> activeDays ds de k \<le> 0" "\<not> monthLength k \<le> 0"
      using a ml by (simp_all add: activeDays_def)
    show ?thesis
      unfolding step Let_def n using True a pos by (simp add: monthCents_def)
  qed
qed

lemma obj_set_fresh: "k \<notin> fst ` set ob \<Longrightarrow> obj_set ob k v = ob @ [(k, v)]"
  by (induction ob) auto

lemma obj_add_fresh: "k \<notin> fst ` set ob \<Longrightarrow> obj_add ob k v = ob @ [(k, v)]"
proof -
  assume k: "k \<notin> fst ` set ob"
  then have "map_of ob k = None" by (simp add: map_of_eq_None_iff)
  then show ?thesis using k by (simp add: obj_add_def obj_set_fresh obj_get_or0_def)
qed

lemma alloc_loop_months:
  assumes "1200 \<le> k"
    and "\<forall>j\<ge>k. month_key j \<notin> fst ` set (allocations acc)"
    and "\<forall>j\<ge>k. month_key j \<notin> fst ` set (nightsByMonth acc)"
  shows "alloc_loop (ds * msPerDay) (de * msPerDay) r (firstDay k1 * msPerDay)
           (firstDay k * msPerDay) acc =
     \<lparr>allocations = allocations acc @ month_entries (monthCents r ds de)
          (filter (month_active ds de) [k..k1]),
      nightsByMonth = nightsByMonth acc @ month_entries (activeDays ds de)
          (filter (month_active ds de) [k..k1])\<rparr>"
  using assms
proof (induction "nat (k1 + 1 - k)" arbitrary: k acc)
  case 0
  then have "k1 < k" by simp
  then have "\<not> firstDay k * msPerDay \<le> firstDay k1 * msPerDay"
    using firstDay_strict_mono [of k1 k] by (simp add: msPerDay_def)
  then show ?case using \<open>k1 < k\<close>
    by (subst alloc_loop.simps) (simp add: month_entries_def)
next
  case (Suc n)
  then have le: "k \<le> k1" by linarith
  then have c: "firstDay k * msPerDay \<le> firstDay k1 * msPerDay"
    using firstDay_mono [of k k1] by (simp add: msPerDay_def)
  define acc' where
    "acc' = month_step (ds * msPerDay) (de * msPerDay) r (firstDay k * msPerDay) acc"
  have acc': "acc' = (if month_active ds de k
      then \<lparr>allocations = allocations acc @ [(month_key k, monthCents r ds de k)],
            nightsByMonth = nightsByMonth acc @ [(month_key k, activeDays ds de k)]\<rparr>
      else acc)"
    using Suc.prems(2,3)
    by (simp add: acc'_def month_step_at_first [OF Suc.prems(1)] obj_add_fresh)
  have fresh: "\<forall>j\<ge>k + 1. month_key j \<notin> fst ` set (allocations acc')"
    "\<forall>j\<ge>k + 1. month_key j \<notin> fst ` set (nightsByMonth acc')"
  proof -
    have "month_key j \<noteq> month_key k" if "k + 1 \<le> j" for j
      using that month_key_inj [of j k] by auto
    then show "\<forall>j\<ge>k + 1. month_key j \<notin> fst ` set (allocations acc')"
      "\<forall>j\<ge>k + 1. month_key j \<notin> fst ` set (nightsByMonth acc')"
      using Suc.prems(2,3) by (auto simp: acc')
  qed
  have n: "n = nat (k1 + 1 - (k + 1))" using Suc.hyps(2) by linarith
  have k': "1200 \<le> k + 1" using Suc.prems(1) by simp
  have "alloc_loop (ds * msPerDay) (de * msPerDay) r (firstDay k1 * msPerDay)
        (firstDay k * msPerDay) acc =
      alloc_loop (ds * msPerDay) (de * msPerDay) r (firstDay k1 * msPerDay)
        (firstDay (k + 1) * msPerDay) acc'"
    using c by (subst alloc_loop.simps)
      (simp add: first_of_month(3) [OF Suc.prems(1)] acc'_def)
  also have "\<dots> = \<lparr>allocations = allocations acc' @ month_entries (monthCents r ds de)
          (filter (month_active ds de) [k + 1..k1]),
      nightsByMonth = nightsByMonth acc' @ month_entries (activeDays ds de)
          (filter (month_active ds de) [k + 1..k1])\<rparr>"
    by (rule Suc.hyps(1) [OF n k' fresh])
  also have "\<dots> = \<lparr>allocations = allocations acc @ month_entries (monthCents r ds de)
          (filter (month_active ds de) [k..k1]),
      nightsByMonth = nightsByMonth acc @ month_entries (activeDays ds de)
          (filter (month_active ds de) [k..k1])\<rparr>"
    unfolding upto_rec1 [OF le] by (simp add: acc' month_entries_def)
  finally show ?case .
qed

lemma month_start_of:
  assumes "100 \<le> getUTCFullYear t"
  shows "Date_UTC (getUTCFullYear t) (getUTCMonth t) 1 = firstDay (monthIndex (Day t)) * msPerDay"
    and "1200 \<le> monthIndex (Day t)"
proof -
  have c: "\<not> (0 \<le> getUTCFullYear t \<and> getUTCFullYear t \<le> 99)" using assms by linarith
  show "Date_UTC (getUTCFullYear t) (getUTCMonth t) 1 = firstDay (monthIndex (Day t)) * msPerDay"
    unfolding Date_UTC_firstDay using c by (simp only: if_False ym_monthIndex) simp
  show "1200 \<le> monthIndex (Day t)"
    using assms MonthFromDay_range(1) [of "Day t"]
    by (simp add: monthIndex_def getUTCFullYear_def)
qed

lemma year_mono: "s \<le> e \<Longrightarrow> getUTCFullYear s \<le> getUTCFullYear e"
proof -
  assume "s \<le> e"
  then have "monthIndex (Day s) \<le> monthIndex (Day e)" by (intro monthIndex_mono Day_mono)
  then have "monthIndex (Day s) div 12 \<le> monthIndex (Day e) div 12" by (rule zdiv_mono1) simp
  then show ?thesis by (simp add: monthIndex_div getUTCFullYear_def)
qed

lemma midnight_day: "t mod msPerDay = 0 \<Longrightarrow> t = Day t * msPerDay"
  by (simp add: Day_def mod_eq_0_iff_dvd)

lemma allocation_of_lease:
  assumes "lease_dates legacy app = Some (s, e)"
    and "s mod msPerDay = 0" "e mod msPerDay = 0" "s \<le> e"
    and "rentalAmount app = Some rent" "fl rent \<noteq> 0"
    and "100 \<le> getUTCFullYear s"
  shows "calculateAccrualAllocations legacy app = expected_allocation (fl rent) (Day s) (Day e)"
proof -
  have p: "parseDateOnly legacy (js_or (leaseStartDate app) (requestedStartDate app)) = Some (ValidDate s)"
    "parseDateOnly legacy (js_or (leaseEndDate app) (requestedEndDate app)) = Some (ValidDate e)"
    using assms(1) by (auto simp: lease_dates_def split: option.splits js_date.splits)
  have ye: "100 \<le> getUTCFullYear e" using year_mono [OF assms(4)] assms(7) by linarith
  have "calculateAccrualAllocations legacy app =
      alloc_loop s e (fl rent) (firstDay (monthIndex (Day e)) * msPerDay)
        (firstDay (monthIndex (Day s)) * msPerDay) no_allocation"
    using assms(4-6)
    by (simp add: calculateAccrualAllocations_def p month_start_of(1) [OF assms(7)]
        month_start_of(1) [OF ye])
  also have "\<dots> = alloc_loop (Day s * msPerDay) (Day e * msPerDay) (fl rent)
        (firstDay (monthIndex (Day e)) * msPerDay)
        (firstDay (monthIndex (Day s)) * msPerDay) no_allocation"
    using midnight_day [OF assms(2)] midnight_day [OF assms(3)] by simp
  also have "\<dots> = expected_allocation (fl rent) (Day s) (Day e)"
    by (subst alloc_loop_months [OF month_start_of(2) [OF assms(7)]])
      (simp_all add: no_allocation_def expected_allocation_def lease_months_def month_entries_def)
  finally show ?thesis .
qed

lemma telescope:
  fixes h :: "int \<Rightarrow> int"
  shows "a \<le> b + 1 \<Longrightarrow> sum_list (map (\<lambda>k. h (k + 1) - h k) [a..b]) = h (b + 1) - h a"
proof (induction "nat (b + 1 - a)" arbitrary: a)
  case 0
  then have "a = b + 1" by linarith
  then show ?case by simp
next
  case (Suc n)
  then have le: "a \<le> b" by linarith
  have "n = nat (b + 1 - (a + 1))" "a + 1 \<le> b + 1" using Suc.hyps(2) le by linarith+
  then have "sum_list (map (\<lambda>k. h (k + 1) - h k) [a + 1..b]) = h (b + 1) - h (a + 1)"
    by (rule Suc.hyps(1))
  then show ?case unfolding upto_rec1 [OF le] by simp
qed

lemma month_of_lease:
  assumes "ds \<le> de" "monthIndex ds \<le> k" "k \<le> monthIndex de"
  shows "month_active ds de k"
    and "activeDays ds de k = clamp_day ds de (firstDay (k + 1)) - clamp_day ds de (firstDay k)"
proof -
  have a: "firstDay k \<le> de"
    using firstDay_mono [OF assms(3)] monthIndex_lower [of de] by linarith
  have b: "ds < firstDay (k + 1)"
    using firstDay_mono [of "monthIndex ds + 1" "k + 1"] assms(2) monthIndex_upper [of ds]
    by simp
  have c: "firstDay k < firstDay (k + 1)" by (rule firstDay_strict_mono) simp
  show "month_active ds de k"
    using a b c assms(1)
    by (simp add: month_active_def activeStart_def activeEnd_def lastDay_def max_def min_def)
  show "activeDays ds de k = clamp_day ds de (firstDay (k + 1)) - clamp_day ds de (firstDay k)"
    using a b c assms(1)
    by (simp add: activeDays_def activeStart_def activeEnd_def lastDay_def clamp_day_def
        max_def min_def)
qed

lemma nights_total:
  assumes "ds \<le> de"
  shows "sum_list (map (activeDays ds de) (lease_months ds de)) = de - ds + 1"
proof -
  define k0 k1 where "k0 = monthIndex ds" and "k1 = monthIndex de"
  have k: "k0 \<le> k1" using assms by (simp add: k0_def k1_def monthIndex_mono)
  have all: "filter (month_active ds de) [k0..k1] = [k0..k1]"
    using month_of_lease(1) [OF assms] by (simp add: k0_def k1_def)
  have "sum_list (map (activeDays ds de) [k0..k1])
      = sum_list (map (\<lambda>k. clamp_day ds de (firstDay (k + 1)) - clamp_day ds de (firstDay k)) [k0..k1])"
    using month_of_lease(2) [OF assms]
    by (intro arg_cong [where f = sum_list] map_cong) (simp_all add: k0_def k1_def)
  also have "\<dots> = clamp_day ds de (firstDay (k1 + 1)) - clamp_day ds de (firstDay k0)"
    using k by (intro telescope) simp
  also have "\<dots> = de + 1 - ds"
    using monthIndex_upper [of de] monthIndex_lower [of ds] assms
    by (simp add: clamp_day_def k0_def k1_def max_def min_def)
  finally show ?thesis
    using all by (simp add: lease_months_def k0_def k1_def)
qed

lemma nights_sum:
  assumes "lease_dates legacy app = Some (s, e)"
    and "s mod msPerDay = 0" "e mod msPerDay = 0" "s \<le> e"
    and "rentalAmount app = Some rent" "fl rent \<noteq> 0"
    and "100 \<le> getUTCFullYear s"
  shows "sum_list (map snd (nightsByMonth (calculateAccrualAllocations legacy app)))
     = (e - s) div msPerDay + 1"
proof -
  have s: "s = Day s * msPerDay" and e: "e = Day e * msPerDay"
    using assms(2,3) by (simp_all add: midnight_day)
  have d: "Day s \<le> Day e" using assms(4) by (rule Day_mono)
  have "sum_list (map snd (nightsByMonth (calculateAccrualAllocations legacy app)))
      = sum_list (map (activeDays (Day s) (Day e)) (lease_months (Day s) (Day e)))"
    by (simp add: allocation_of_lease [OF assms] expected_allocation_def comp_def)
  also have "\<dots> = Day e - Day s + 1"
    using nights_total [OF d] by simp
  also have "\<dots> = (e - s) div msPerDay + 1"
  proof -
    have "e - s = (Day e - Day s) * msPerDay" using s e by (simp add: algebra_simps)
    then show ?thesis by (simp add: msPerDay_def)
  qed
  finally show ?thesis .
qed

lemma unusable_date_parse:
  "unusable_date legacy v \<Longrightarrow>
     parseDateOnly legacy v = None \<or> parseDateOnly legacy v = Some InvalidDate"
  by (cases v) (auto simp: unusable_date_def parseDateOnly_def Date_of_string_def)

lemma calc_invalid:
  "s = Some InvalidDate \<or> e = Some InvalidDate \<or> s = None \<or> e = None \<Longrightarrow>
   (case (s, e) of
        (Some leaseStart, Some leaseEnd) \<Rightarrow>
          if date_less leaseEnd leaseStart then no_allocation
          else
            (let monthlyRent = (case r of None \<Rightarrow> 0 | Some r \<Rightarrow> fl r)
             in if monthlyRent = 0 then no_allocation
                else
                  (case (leaseStart, leaseEnd) of
                     (ValidDate s, ValidDate e) \<Rightarrow> f s e monthlyRent
                   | _ \<Rightarrow> no_allocation))
      | _ \<Rightarrow> no_allocation) = no_allocation"
  by (auto simp: Let_def split: option.splits js_date.splits)

lemma fl_zero: "fl 0 = 0"
  by (simp add: fl_def)
section \<open>Facts about the period filter\<close>










section \<open>The sample data, evaluated\<close>

lemma lease_jan_feb_dates:
  "lease_dates strict_parse lease_jan_feb = Some (1705276800000, 1707523200000)"
  by code_simp

lemma lease_jan_feb_year: "100 \<le> getUTCFullYear 1705276800000"
  by code_simp

lemma lease_jan_feb_allocation:
  "calculateAccrualAllocations strict_parse lease_jan_feb
     = \<lparr>allocations = [(''2024-01'', 54839), (''2024-02'', 34483)],
        nightsByMonth = [(''2024-01'', 17), (''2024-02'', 10)]\<rparr>"
  by code_simp

lemma summary_all_time_eval:
  "revenueSummary strict_parse utc utc sample_now sample_db [lease_jan_feb] all_time
     = Inr summary_all_time"
  by code_simp

lemma sample_payments_all_time:
  "qualifying_payments strict_parse sample_db all_time = Inr [pay_rent, pay_refund, pay_with_fee]"
  by code_simp

lemma summary_year_2023_eval:
  "revenueSummary strict_parse utc utc sample_now sample_db [lease_jan_feb] year_2023
     = Inr summary_year_2023"
  by code_simp

lemma summary_no_leases_eval:
  "revenueSummary strict_parse utc utc sample_now sample_db [] all_time = Inr summary_no_leases"
  by code_simp

lemma sample_payments_year_2023:
  "qualifying_payments strict_parse sample_db year_2023 = Inr []"
  by code_simp

lemma lease_half_cent_allocation:
  "calculateAccrualAllocations strict_parse lease_half_cent
     = \<lparr>allocations = [(''2023-02'', 92437)], nightsByMonth = [(''2023-02'', 17)]\<rparr>"
  by code_simp

lemma lease_with_hours_dates:
  "lease_dates strict_parse lease_with_hours = Some (1706677200000, 1706763600000)"
  by code_simp

lemma lease_with_hours_allocation:
  "calculateAccrualAllocations strict_parse lease_with_hours
     = \<lparr>allocations = [(''2024-02'', 3448)], nightsByMonth = [(''2024-02'', 1)]\<rparr>"
  by code_simp

lemma summary_new_york_eval:
  "revenueSummary strict_parse new_york new_york_local sample_now new_york_db [lease_jan_feb]
     all_time = Inr summary_new_york"
  by code_simp

lemma new_york_payments:
  "qualifying_payments strict_parse new_york_db all_time
     = Inr [pay_with_fee, pay_april_night, pay_rent]"
  by code_simp

section \<open>Facts about the summary\<close>

lemma obj_keys_obj_set:
  "obj_keys (obj_set ob k v) = (if k \<in> set (obj_keys ob) then obj_keys ob else obj_keys ob @ [k])"
  by (induction ob) (force simp: obj_keys_def)+

lemma map_of_obj_set: "map_of (obj_set ob k v) = (map_of ob)(k \<mapsto> v)"
  by (induction ob) (auto simp: fun_eq_iff)

lemma distinct_obj_set: "distinct (obj_keys ob) \<Longrightarrow> distinct (obj_keys (obj_set ob k v))"
  by (simp add: obj_keys_obj_set)

lemma obj_keys_obj_add:
  "obj_keys (obj_add ob k v) = (if k \<in> set (obj_keys ob) then obj_keys ob else obj_keys ob @ [k])"
  by (simp add: obj_add_def obj_keys_obj_set)

lemma map_of_obj_add: "map_of (obj_add ob k v) = (map_of ob)(k \<mapsto> obj_get_or0 ob k + v)"
  by (simp add: obj_add_def map_of_obj_set)

lemma foldl_sum:
  fixes f :: "'a \<Rightarrow> int"
  shows "foldl (\<lambda>sum p. sum + f p) a ps = a + sum_list (map f ps)"
  by (induction ps arbitrary: a) simp_all

lemma window_of_entries:
  assumes "distinct ks" "set ks \<inter> set (obj_keys ob0) = {}"
  shows "foldl (\<lambda>ob k. obj_set ob k (f k)) ob0 ks = ob0 @ map (\<lambda>k. (k, f k)) ks"
  using assms
proof (induction ks arbitrary: ob0)
  case Nil
  show ?case by simp
next
  case (Cons k ks)
  have f: "obj_set ob0 k (f k) = ob0 @ [(k, f k)]"
    using Cons.prems(2) by (intro obj_set_fresh) (auto simp: obj_keys_def)
  have "set ks \<inter> set (obj_keys (ob0 @ [(k, f k)])) = {}"
    using Cons.prems by (auto simp: obj_keys_def)
  then show ?case using Cons.IH [of "ob0 @ [(k, f k)]"] Cons.prems(1) by (simp add: f)
qed

lemma window_of_eq:
  "distinct (obj_keys cash) \<Longrightarrow>
     window_of cash timeline = map (\<lambda>k. (k, obj_get_or0 timeline k)) (obj_keys cash)"
  using window_of_entries [of "obj_keys cash" "[]" "obj_get_or0 timeline"]
  by (simp add: window_of_def obj_keys_def)

lemma add_payment_keys: "obj_keys (add_payment tz ob p) = obj_keys ob"
  by (auto simp: add_payment_def obj_keys_obj_add hasOwnProperty_def Let_def split: option.splits)

lemma cashTimeline_keys: "obj_keys (cashTimeline tz tzl now ps) = obj_keys (monthlyRevenue_init tz tzl now)"
proof -
  have "obj_keys (foldl (add_payment tz) ob ps) = obj_keys ob" for ob
    by (induction ps arbitrary: ob) (simp_all add: add_payment_keys)
  then show ?thesis by (simp add: cashTimeline_def)
qed

lemma zero_month_distinct:
  "distinct (obj_keys ob) \<Longrightarrow> distinct (obj_keys (foldl (zero_month tz tzl now) ob is))"
  by (induction "is" arbitrary: ob) (simp_all add: zero_month_def distinct_obj_set)

lemma monthlyRevenue_init_distinct: "distinct (obj_keys (monthlyRevenue_init tz tzl now))"
  unfolding monthlyRevenue_init_def
  by (rule zero_month_distinct) (simp add: obj_keys_def)

lemma cashTimeline_distinct: "distinct (obj_keys (cashTimeline tz tzl now ps))"
  by (simp add: cashTimeline_keys monthlyRevenue_init_distinct)

lemma revenueSummary_Inr:
  assumes "revenueSummary legacy tz tzl now db apps q = Inr S"
  obtains payments where "qualifying_payments legacy db q = Inr payments"
    and "S = \<lparr>summary = cashSummary payments,
              monthlyRevenue = cashTimeline tz tzl now payments,
              accrualMonthlyRevenue =
                window_of (cashTimeline tz tzl now payments) (accrual (lease_ledger legacy db apps now)),
              occupancyByMonth =
                window_of (cashTimeline tz tzl now payments) (occupancy (lease_ledger legacy db apps now)),
              accrualSummary =
                accrualSummary_of (getPeriodConfig (requested_period q) (q_year q) (q_month q))
                  (lease_ledger legacy db apps now),
              accrualTimeline = accrual (lease_ledger legacy db apps now),
              occupancyTimeline = occupancy (lease_ledger legacy db apps now)\<rparr>"
  using assms by (auto simp: revenueSummary_def Let_def split: sum.splits)

lemma find_succeeded_sound:
  assumes "find_succeeded db f = Inr payments"
  shows "set payments \<subseteq> set db" "list_all (\<lambda>p. status p = ''succeeded'') payments"
proof -
  have "set payments \<subseteq> set db \<and> list_all (\<lambda>p. status p = ''succeeded'') payments"
  proof (cases f)
    case None
    then show ?thesis using assms by (auto simp: list_all_iff)
  next
    case (Some b)
    obtain lo hi where b: "b = (lo, hi)" by (cases b)
    show ?thesis
      using assms Some b by (cases lo; cases hi) (auto simp: list_all_iff)
  qed
  then show "set payments \<subseteq> set db" "list_all (\<lambda>p. status p = ''succeeded'') payments"
    by simp_all
qed

lemma foldl_set_add:
  "set (foldl set_add ks ys) = set ks \<union> set ys"
  "distinct ks \<Longrightarrow> distinct (foldl set_add ks ys)"
  by (induction ys arbitrary: ks) (auto simp: set_add_def)

lemma count_accrual_fold:
  "foldl (count_accrual c) t xs =
     t\<lparr>earned := earned t + matching_total c xs,
       monthsCovered := foldl set_add (monthsCovered t)
         (filter (\<lambda>k. monthMatchesPeriod k c) (obj_keys xs))\<rparr>"
  by (induction xs arbitrary: t)
    (auto simp: count_accrual_def matching_total_def obj_keys_def)

lemma count_occupancy_fold:
  "foldl (count_occupancy c) t xs =
     t\<lparr>nights := nights t + matching_total c xs,
       monthsCovered := foldl set_add (monthsCovered t)
         (filter (\<lambda>k. monthMatchesPeriod k c) (obj_keys xs))\<rparr>"
  by (induction xs arbitrary: t)
    (auto simp: count_occupancy_def matching_total_def obj_keys_def)

lemma periodTotals_eq:
  "earned (periodTotals c a oc) = matching_total c a"
  "nights (periodTotals c a oc) = matching_total c oc"
  "length (monthsCovered (periodTotals c a oc)) = length (months_touched c a oc)"
proof -
  let ?ks = "filter (\<lambda>k. monthMatchesPeriod k c) (obj_keys a)"
  let ?js = "filter (\<lambda>k. monthMatchesPeriod k c) (obj_keys oc)"
  have m: "monthsCovered (periodTotals c a oc) = foldl set_add (foldl set_add [] ?ks) ?js"
    by (simp add: periodTotals_def count_accrual_fold count_occupancy_fold)
  have d: "distinct (monthsCovered (periodTotals c a oc))"
    unfolding m by (intro foldl_set_add(2)) simp
  have s: "set (monthsCovered (periodTotals c a oc)) = set ?ks \<union> set ?js"
    unfolding m by (simp add: foldl_set_add(1))
  show "earned (periodTotals c a oc) = matching_total c a"
    "nights (periodTotals c a oc) = matching_total c oc"
    by (simp_all add: periodTotals_def count_accrual_fold count_occupancy_fold)
  have "length (monthsCovered (periodTotals c a oc)) = card (set ?ks \<union> set ?js)"
    using d s by (metis distinct_card)
  also have "\<dots> = length (months_touched c a oc)"
    by (simp add: months_touched_def length_remdups_card_conv)
  finally show "length (monthsCovered (periodTotals c a oc)) = length (months_touched c a oc)" .
qed

lemma all_period_fallback:
  assumes "length (months_touched AllPeriod a oc) = 0"
  shows "length (obj_keys a) = 0"
  using assms by (simp add: months_touched_def monthMatchesPeriod_def)

lemma local_month_key_eq: "local_month_key tz t = month_key (local_month tz t)"
  using monthIndex_div [of "Day (t + tz t)"]
  by (simp add: local_month_key_def getFullYear_def getMonth_def local_month_def month_key_def
      padMonth_def String_of_def)

lemma window_key_eq:
  assumes "100 \<le> getFullYear tz now" "zone_keeps_month tz tzl (local_month tz now - i)"
  shows "window_key tz tzl now i = months_back (local_month tz now) i"
proof -
  have c: "\<not> (0 \<le> getFullYear tz now \<and> getFullYear tz now \<le> 99)" using assms(1) by linarith
  have k: "12 * getFullYear tz now + (getMonth tz now - i) = local_month tz now - i"
    by (simp add: getFullYear_def getMonth_def monthIndex_def local_month_def)
  have "Date_local tzl (getFullYear tz now) (getMonth tz now - i) 1
      = UTC_of_local tzl (firstDay (local_month tz now - i) * msPerDay)"
    unfolding Date_local_def Let_def MakeDay_firstDay using c by (simp only: if_False k) simp
  then show ?thesis
    using assms(2)
    by (simp add: window_key_def months_back_def local_month_key_eq zone_keeps_month_def)
qed

lemma zero_month_entries:
  assumes "distinct (map (window_key tz tzl now) is)"
    "set (map (window_key tz tzl now) is) \<inter> set (obj_keys ob) = {}"
  shows "foldl (zero_month tz tzl now) ob is = ob @ map (\<lambda>i. (window_key tz tzl now i, 0)) is"
  using assms
proof (induction "is" arbitrary: ob)
  case Nil
  show ?case by simp
next
  case (Cons i "is")
  have f: "zero_month tz tzl now ob i = ob @ [(window_key tz tzl now i, 0)]"
    using Cons.prems(2) unfolding zero_month_def
    by (intro obj_set_fresh) (auto simp: obj_keys_def)
  have "set (map (window_key tz tzl now) is) \<inter> set (obj_keys (ob @ [(window_key tz tzl now i, 0)])) = {}"
    using Cons.prems by (auto simp: obj_keys_def)
  then show ?case
    using Cons.IH [of "ob @ [(window_key tz tzl now i, 0)]"] Cons.prems(1) by (simp add: f)
qed

lemma months_back_inj: "months_back k i = months_back k j \<Longrightarrow> i = j"
  using month_key_inj [of "k - i" "k - j"] by (simp add: months_back_def)

lemma monthlyRevenue_init_entries:
  assumes "100 \<le> getFullYear tz now"
    and "list_all (zone_keeps_month tz tzl) (window_months (local_month tz now))"
  shows "monthlyRevenue_init tz tzl now
     = map (\<lambda>i. (months_back (local_month tz now) i, 0))
         [11, 10, 9, 8, 7, 6, 5, 4, 3, 2, 1, 0]"
proof -
  let ?is = "[11, 10, 9, 8, 7, 6, 5, 4, 3, 2, 1, 0 :: int]"
  have w: "window_key tz tzl now i = months_back (local_month tz now) i" if "i \<in> set ?is" for i
  proof -
    have "local_month tz now - i \<in> set (window_months (local_month tz now))"
      using that unfolding window_months_def set_map by (rule imageI)
    then have "zone_keeps_month tz tzl (local_month tz now - i)"
      using assms(2) by (simp only: list_all_iff)
    then show ?thesis by (rule window_key_eq [OF assms(1)])
  qed
  have m: "map (window_key tz tzl now) ?is = map (months_back (local_month tz now)) ?is"
    by (rule map_cong [OF refl]) (rule w)
  have "inj (months_back (local_month tz now))"
    using months_back_inj by (auto simp: inj_on_def)
  then have i: "inj_on (months_back (local_month tz now)) (set ?is)"
    by (rule inj_on_subset) simp
  have d: "distinct ?is" by simp
  have "distinct (map (window_key tz tzl now) ?is)"
    unfolding m using d i by (simp only: distinct_map simp_thms)
  then have "monthlyRevenue_init tz tzl now = [] @ map (\<lambda>i. (window_key tz tzl now i, 0)) ?is"
    unfolding monthlyRevenue_init_def by (intro zero_month_entries) (simp_all add: obj_keys_def)
  also have "\<dots> = map (\<lambda>i. (months_back (local_month tz now) i, 0)) ?is"
    unfolding append_Nil by (rule map_cong [OF refl]) (simp only: w)
  finally show ?thesis .
qed

lemma monthlyRevenue_init_keys:
  assumes "100 \<le> getFullYear tz now"
    and "list_all (zone_keeps_month tz tzl) (window_months (local_month tz now))"
  shows "obj_keys (monthlyRevenue_init tz tzl now) = trailing_window (local_month tz now)"
  by (simp add: monthlyRevenue_init_entries [OF assms] obj_keys_def trailing_window_def)

lemma monthlyRevenue_init_zero:
  assumes "100 \<le> getFullYear tz now"
    and "list_all (zone_keeps_month tz tzl) (window_months (local_month tz now))"
    and "map_of (monthlyRevenue_init tz tzl now) key = Some v"
  shows "v = 0"
proof -
  have "(key, v) \<in> set (monthlyRevenue_init tz tzl now)"
    using assms(3) by (rule map_of_SomeD)
  then show ?thesis
    unfolding monthlyRevenue_init_entries [OF assms(1,2)] by auto
qed

lemma hasOwnProperty_map_of: "hasOwnProperty ob k \<longleftrightarrow> map_of ob k \<noteq> None"
  by (simp add: hasOwnProperty_def obj_keys_def map_of_eq_None_iff)

lemma add_payment_value:
  "map_of (foldl (add_payment tz) ob ps) key =
     (case map_of ob key of
        None \<Rightarrow> None
      | Some v \<Rightarrow> Some (v + sum_list (map amount (filter (paid_in_month tz key) ps))))"
proof (induction ps arbitrary: ob)
  case Nil
  show ?case by (simp split: option.splits)
next
  case (Cons p ps)
  have "map_of (add_payment tz ob p) key =
      (case map_of ob key of
         None \<Rightarrow> None
       | Some v \<Rightarrow> Some (v + (if paid_in_month tz key p then amount p else 0)))"
    by (auto simp: add_payment_def paid_in_month_def Let_def hasOwnProperty_map_of
        map_of_obj_add obj_get_or0_def split: option.splits)
  then show ?case
    by (simp add: Cons.IH split: option.splits)
qed

section \<open>Facts about the bounds of the payment query\<close>

lemma units_literals:
  "units ''-'' = [45]" "units ''-01'' = [45, 48, 49]"
  "units ''-01-01'' = [45, 48, 49, 45, 48, 49]"
  "units ''0x'' = [48, 120]" "units ''0X'' = [48, 88]"
  by (simp_all add: units_def)

lemma period_names:
  "units ''year'' \<noteq> units ''month''" "units ''month'' \<noteq> units ''year''"
  "units ''all'' \<noteq> units ''year''" "units ''all'' \<noteq> units ''month''"
  by (simp_all add: units_def)

lemma digits_of_length1: "n < 10 \<Longrightarrow> length (digits_of n) = 1"
  by (subst digits_of.simps) simp

lemma digits_of_length2:
  assumes "10 \<le> n" "n \<le> 99"
  shows "length (digits_of n) = 2"
proof -
  have "n div 10 < 10" using assms by linarith
  then show ?thesis
    using assms by (subst digits_of.simps) (simp add: digits_of_length1)
qed

lemma digits_of_length4:
  assumes "1000 \<le> y" "y \<le> 9999"
  shows "length (digits_of y) = 4"
proof -
  have a: "10 \<le> y div 100" "y div 100 \<le> 99" using assms by linarith+
  have b: "y div 10 div 10 = y div 100" by (simp add: zdiv_zmult2_eq)
  have c: "\<not> y < 10" "\<not> y div 10 < 10" using assms by linarith+
  have "length (digits_of y) = length (digits_of (y div 10)) + 1"
    using c(1) by (subst digits_of.simps) simp
  also have "length (digits_of (y div 10)) = length (digits_of (y div 100)) + 1"
    using c(2) by (subst digits_of.simps) (simp add: b)
  finally show ?thesis by (simp add: digits_of_length2 [OF a])
qed

lemma digit_not_ws: "is_digit c \<Longrightarrow> \<not> is_ws c \<and> c \<noteq> 45 \<and> c \<noteq> 43 \<and> c \<noteq> 120 \<and> c \<noteq> 88"
  by (auto simp: is_digit_def is_ws_def)

lemma parseInt_digits:
  assumes "list_all is_digit us" "us \<noteq> []"
  shows "parseInt us = Some (digits_value us)" "parseInt10 us = Some (digits_value us)"
proof -
  obtain c r where us: "us = c # r" using assms(2) by (cases us) auto
  have c: "is_digit c" using assms(1) us by simp
  have t: "takeWhile is_digit us = us"
    using assms(1) by (simp add: takeWhile_eq_all_conv list_all_iff)
  have x: "take 2 us \<noteq> [48, 120]" "take 2 us \<noteq> [48, 88]"
  proof -
    have "set (take 2 us) \<subseteq> set us" by (rule set_take_subset)
    then have "list_all is_digit (take 2 us)" using assms(1) by (auto simp: list_all_iff)
    then show "take 2 us \<noteq> [48, 120]" "take 2 us \<noteq> [48, 88]"
      by (auto simp: is_digit_def)
  qed
  have d: "dropWhile is_ws us = us" using digit_not_ws [OF c] by (simp add: us)
  have s2: "(case us of c # r \<Rightarrow> if c = 45 \<or> c = 43 then r else us | [] \<Rightarrow> us) = us"
    "(case us of c # _ \<Rightarrow> if c = 45 then - 1 else 1 | [] \<Rightarrow> (1::int)) = 1"
    using digit_not_ws [OF c] by (simp_all add: us)
  show "parseInt us = Some (digits_value us)"
    unfolding parseInt_def d Let_def s2 units_literals t using x assms(2) by simp
  show "parseInt10 us = Some (digits_value us)"
    unfolding parseInt10_def d Let_def s2 t using assms(2) by simp
qed

lemma parseInt_number:
  assumes "0 \<le> n"
  shows "parseInt (units (Number_toString n)) = Some n"
proof -
  have ne: "units (digits_of n) \<noteq> []" using digits_of_digits(2) [of n] by (simp add: units_def)
  show ?thesis
    using assms parseInt_digits(1) [OF digits_of_units ne]
    by (simp add: Number_toString_def digits_value_digits_of)
qed

lemma date_only_parts:
  assumes "length ys = 4" "length ms = 2" "length ds = 2"
    and "list_all is_digit ys" "list_all is_digit ms" "list_all is_digit ds"
  shows "Date_parse legacy (ys @ 45 # ms @ 45 # ds) =
     (if 1 \<le> digits_value ms \<and> digits_value ms \<le> 12 \<and> 1 \<le> digits_value ds
         \<and> digits_value ds \<le> monthLength (12 * digits_value ys + digits_value ms - 1)
      then Some (MakeDay (digits_value ys) (digits_value ms - 1) (digits_value ds) * msPerDay)
      else legacy (ys @ 45 # ms @ 45 # ds))"
proof -
  have i: "is_date_only (ys @ 45 # ms @ 45 # ds)"
    using assms by (simp add: is_date_only_def nth_append)
  have p: "take 4 (ys @ 45 # ms @ 45 # ds) = ys"
    "take 2 (drop 5 (ys @ 45 # ms @ 45 # ds)) = ms"
    "drop 8 (ys @ 45 # ms @ 45 # ds) = ds"
    using assms(1-3) by simp_all
  show ?thesis
    unfolding Date_parse_def Let_def p using i by simp
qed

lemma first_of_month_valid: "(1::int) \<le> monthLength k"
  using monthLength_bounds(1) [of k] by linarith

lemma bound_value:
  assumes "1000 \<le> y" "y \<le> 9999" "1 \<le> n" "n \<le> 12" "node_reads legacy tzl y n"
  shows "Date_of_string legacy (bound_text y n) = ValidDate (month_bound tzl y n)"
proof (cases "n < 10")
  case True
  have "length (bound_text y n) = 9"
    using assms(1-3) True
    by (simp add: bound_text_def units_length Number_toString_def digits_of_length4
        digits_of_length1)
  then have "\<not> is_date_only (bound_text y n)" by (simp add: is_date_only_def)
  then have "Date_parse legacy (bound_text y n) = legacy (bound_text y n)"
    by (simp add: Date_parse_def)
  then show ?thesis
    using assms(3,5) True by (simp add: Date_of_string_def node_reads_def month_bound_def)
next
  case False
  then have n: "10 \<le> n" "n \<le> 99" "0 \<le> n" using assms(4) by simp_all
  have y: "0 \<le> y" using assms(1) by simp
  have t: "bound_text y n = units (digits_of y) @ 45 # units (digits_of n) @ 45 # [48, 49]"
    using y n(3) by (simp add: bound_text_def Number_toString_def units_def)
  have d: "list_all is_digit [48, 49]" "digits_value [48, 49] = 1" "length [48, 49 :: int] = 2"
    by (simp_all add: is_digit_def digits_value_def)
  have l: "length (units (digits_of y)) = 4" "length (units (digits_of n)) = 2"
    by (simp_all add: units_length digits_of_length4 [OF assms(1,2)] digits_of_length2 [OF n(1,2)])
  have "Date_parse legacy (bound_text y n) = Some (MakeDay y (n - 1) 1 * msPerDay)"
    unfolding t date_only_parts [OF l d(3) digits_of_units digits_of_units d(1)]
    using assms(3,4) first_of_month_valid [of "12 * y + n - 1"]
    by (simp add: d(2) digits_value_digits_of [OF y] digits_value_digits_of [OF n(3)])
  moreover have "12 * y + (n - 1) = 12 * y + n - 1" by simp
  ultimately show ?thesis
    using False by (simp add: Date_of_string_def month_bound_def utc_midnight_def MakeDay_firstDay)
qed

lemma bound_invalid:
  assumes "1000 \<le> y" "y \<le> 9999" "node_reads legacy tzl y 13"
  shows "Date_of_string legacy (bound_text y 13) = InvalidDate"
proof -
  have y: "0 \<le> y" using assms(1) by simp
  have n: "(10::int) \<le> 13" "(13::int) \<le> 99" "(0::int) \<le> 13" by simp_all
  have t: "bound_text y 13 = units (digits_of y) @ 45 # units (digits_of 13) @ 45 # [48, 49]"
    using y by (simp add: bound_text_def Number_toString_def units_def)
  have d: "list_all is_digit [48, 49]" "digits_value [48, 49] = 1" "length [48, 49 :: int] = 2"
    by (simp_all add: is_digit_def digits_value_def)
  have l: "length (units (digits_of y)) = 4" "length (units (digits_of 13)) = 2"
    by (simp_all add: units_length digits_of_length4 [OF assms(1,2)] digits_of_length2 [OF n(1,2)])
  have "Date_parse legacy (bound_text y 13) = legacy (bound_text y 13)"
    unfolding t date_only_parts [OF l d(3) digits_of_units digits_of_units d(1)]
    by (simp add: digits_value_digits_of [OF n(3)])
  then show ?thesis
    using assms(3) by (simp add: Date_of_string_def node_reads_def)
qed

lemma year_bound:
  assumes "1000 \<le> y" "y \<le> 9999"
  shows "Date_of_string legacy (units (Number_toString y) @ units ''-01-01'')
     = ValidDate (utc_midnight y 1)"
proof -
  have y: "0 \<le> y" using assms(1) by simp
  have t: "units (Number_toString y) @ units ''-01-01''
      = units (digits_of y) @ 45 # [48, 49] @ 45 # [48, 49]"
    using y by (simp add: Number_toString_def units_literals)
  have d: "list_all is_digit [48, 49]" "digits_value [48, 49] = 1" "length [48, 49 :: int] = 2"
    by (simp_all add: is_digit_def digits_value_def)
  have l: "length (units (digits_of y)) = 4"
    by (simp add: units_length digits_of_length4 [OF assms])
  have "Date_parse legacy (units (Number_toString y) @ units ''-01-01'')
      = Some (MakeDay y 0 1 * msPerDay)"
    unfolding t date_only_parts [OF l d(3) d(3) digits_of_units d(1) d(1)]
    using first_of_month_valid [of "12 * y"]
    by (simp add: d(2) digits_value_digits_of [OF y])
  then show ?thesis
    by (simp add: Date_of_string_def utc_midnight_def MakeDay_firstDay)
qed

lemma number_text_truthy: "truthy_param (Some (units (Number_toString n)))"
  using digits_of_digits(2) by (simp add: truthy_param_def units_def Number_toString_def)

lemma dateFilter_year:
  assumes "1000 \<le> y" "y \<le> 9998"
  shows "dateFilter legacy (units ''year'') (Some (units (Number_toString y))) month
     = Some (ValidDate (utc_midnight y 1), ValidDate (utc_midnight (y + 1) 1))"
proof -
  have y: "0 \<le> y" "y \<le> 9999" "1000 \<le> y + 1" "y + 1 \<le> 9999" using assms by simp_all
  show ?thesis
    by (simp add: dateFilter_def number_text_truthy param_text_def parseInt_number [OF y(1)]
        plus_one_def String_of_def year_bound [OF assms(1) y(2)] year_bound [OF y(3,4)])
qed

lemma dateFilter_month:
  assumes "0 \<le> m"
  shows "dateFilter legacy (units ''month'') (Some (units (Number_toString y)))
       (Some (units (Number_toString m)))
     = Some (Date_of_string legacy (bound_text y m), Date_of_string legacy (bound_text y (m + 1)))"
proof -
  have t: "param_text (Some (units (Number_toString y))) @ units ''-''
        @ param_text (Some (units (Number_toString m))) @ units ''-01'' = bound_text y m"
    by (simp add: param_text_def bound_text_def units_def)
  have u: "param_text (Some (units (Number_toString y))) @ units ''-''
        @ units (String_of (plus_one (parseInt (param_text (Some (units (Number_toString m)))))))
        @ units ''-01'' = bound_text y (m + 1)"
    by (simp add: param_text_def parseInt_number [OF assms] plus_one_def String_of_def
        bound_text_def) (simp add: units_def)
  show ?thesis
    unfolding dateFilter_def t u by (simp add: period_names number_text_truthy)
qed

section \<open>The accrual allocator: claims\<close>

text \<open>
  C1, as the code has it. For a lease whose start and end are both present as calendar
  dates (midnight UTC, from the year 100 on), with the end not before the start and a
  monthly rent that is not zero, the allocator visits every calendar month from the
  month of the start to the month of the end. In month \<open>k\<close> the active span runs from
  the later of the month's first day and the lease start to the earlier of the month's
  last day and the lease end; a month whose active span is empty is skipped; the active
  days are the days between the two ends plus one, and the days of the month are the
  month's own count, from 28 to 31. The earned cents are \<^verbatim>\<open>Math.round\<close> of the monthly
  rent times the quotient of the active days by the days of the month, times 100, each
  step rounded to a double: at a tie between two cents this can be the cent below the
  exact quotient rounded half up.
\<close>

theorem allocation_per_calendar_month:
  assumes "lease_dates legacy app = Some (leaseStart, leaseEnd)"
    and "leaseStart mod msPerDay = 0"
    and "leaseEnd mod msPerDay = 0"
    and "leaseStart \<le> leaseEnd"
    and "rentalAmount app = Some rent"
    and "fl rent \<noteq> 0"
    and "100 \<le> getUTCFullYear leaseStart"
  shows "calculateAccrualAllocations legacy app
           = expected_allocation (fl rent) (Day leaseStart) (Day leaseEnd)
         \<and> monthLength k = lastDay k - firstDay k + 1
         \<and> 28 \<le> monthLength k \<and> monthLength k \<le> 31"
  using allocation_of_lease [OF assms] month_span [of k] monthLength_bounds [of k]
  by simp

theorem allocation_per_calendar_month_witness:
  "lease_dates strict_parse lease_jan_feb = Some (1705276800000, 1707523200000)
   \<and> 1705276800000 mod msPerDay = 0
   \<and> 1707523200000 mod msPerDay = 0
   \<and> (1705276800000 :: int) \<le> 1707523200000
   \<and> rentalAmount lease_jan_feb = Some 1000
   \<and> fl 1000 = 1000
   \<and> 100 \<le> getUTCFullYear 1705276800000
   \<and> Day 1705276800000 = 19737
   \<and> Day 1707523200000 = 19763
   \<and> calculateAccrualAllocations strict_parse lease_jan_feb
       = \<lparr>allocations = [(''2024-01'', 54839), (''2024-02'', 34483)],
          nightsByMonth = [(''2024-01'', 17), (''2024-02'', 10)]\<rparr>
   \<and> expected_allocation 1000 19737 19763
       = \<lparr>allocations = [(''2024-01'', 54839), (''2024-02'', 34483)],
          nightsByMonth = [(''2024-01'', 17), (''2024-02'', 10)]\<rparr>
   \<and> lastDay 24289 - firstDay 24289 + 1 = 29"
proof -
  have h2: "1705276800000 mod msPerDay = 0" by (simp add: msPerDay_def)
  have h3: "1707523200000 mod msPerDay = 0" by (simp add: msPerDay_def)
  have h4: "(1705276800000 :: int) \<le> 1707523200000" by simp
  have h5: "rentalAmount lease_jan_feb = Some 1000" by (simp add: lease_jan_feb_def)
  have f: "fl 1000 = 1000" by code_simp
  have h6: "fl 1000 \<noteq> 0" by (simp add: f)
  have d: "Day 1705276800000 = 19737" "Day 1707523200000 = 19763" by code_simp+
  have l: "monthLength 24289 = 29" by code_simp
  note t = allocation_per_calendar_month
      [OF lease_jan_feb_dates h2 h3 h4 h5 h6 lease_jan_feb_year, of 24289]
  have e: "expected_allocation 1000 19737 19763
      = \<lparr>allocations = [(''2024-01'', 54839), (''2024-02'', 34483)],
         nightsByMonth = [(''2024-01'', 17), (''2024-02'', 10)]\<rparr>"
    using t by (simp only: f d lease_jan_feb_allocation)
  have m: "lastDay 24289 - firstDay 24289 + 1 = 29"
    using t l by simp
  show ?thesis
    by (intro conjI lease_jan_feb_dates h2 h3 h4 h5 f lease_jan_feb_year d
        lease_jan_feb_allocation e m)
qed

theorem allocation_per_calendar_month_counterexample:
  "lease_dates strict_parse lease_half_cent = Some (1676160000000, 1677542400000)
   \<and> rentalAmount lease_half_cent = Some (15225 / 10)
   \<and> calculateAccrualAllocations strict_parse lease_half_cent
       = \<lparr>allocations = [(''2023-02'', 92437)], nightsByMonth = [(''2023-02'', 17)]\<rparr>
   \<and> monthLength 24277 = 28
   \<and> round_half_up_cents (15225 / 10) 17 28 = 92438
   \<and> lease_dates strict_parse lease_with_hours = Some (1706677200000, 1706763600000)
   \<and> month_key (monthIndex (Day 1706677200000)) = ''2024-01''
   \<and> allocations (calculateAccrualAllocations strict_parse lease_with_hours)
       = [(''2024-02'', 3448)]
   \<and> lease_dates strict_parse lease_year_50 = Some (- 60588518400000, - 60586272000000)
   \<and> getUTCFullYear (- 60588518400000) = 50
   \<and> allocations (calculateAccrualAllocations strict_parse lease_year_50) = []"
proof -
  have a: "lease_dates strict_parse lease_half_cent = Some (1676160000000, 1677542400000)"
    by code_simp
  have b: "rentalAmount lease_half_cent = Some (15225 / 10)"
    by (simp add: lease_half_cent_def)
  have c: "monthLength 24277 = 28" by code_simp
  have d: "round_half_up_cents (15225 / 10) 17 28 = 92438" by code_simp
  have e: "month_key (monthIndex (Day 1706677200000)) = ''2024-01''" by code_simp
  have f: "allocations (calculateAccrualAllocations strict_parse lease_with_hours)
      = [(''2024-02'', 3448)]"
    by (simp add: lease_with_hours_allocation)
  have g: "lease_dates strict_parse lease_year_50 = Some (- 60588518400000, - 60586272000000)"
    by code_simp
  have h: "getUTCFullYear (- 60588518400000) = 50" by code_simp
  have i: "allocations (calculateAccrualAllocations strict_parse lease_year_50) = []"
    by code_simp
  show ?thesis
    by (intro conjI a b lease_half_cent_allocation c d lease_with_hours_dates e f g h i)
qed

text \<open>
  C2. The claim holds of every lease on calendar dates, which is lemma \<open>nights_sum\<close>
  above. It fails where the dates carry a time of day: \<^verbatim>\<open>parseDateOnly\<close> copies a
  \<^verbatim>\<open>Date\<close> object with its time, against its name and against what it does with a
  string. The lease below runs from 31 January to 1 February 2024, two days on the
  calendar, both stored at 05:00 UTC; the allocator gives it one night.
\<close>

theorem nights_lost_to_time_of_day:
  "lease_dates strict_parse lease_with_hours = Some (1706677200000, 1706763600000)
   \<and> Day 1706677200000 = 19753
   \<and> Day 1706763600000 = 19754
   \<and> (1706763600000 - 1706677200000) div msPerDay + 1 = 2
   \<and> nightsByMonth (calculateAccrualAllocations strict_parse lease_with_hours)
       = [(''2024-02'', 1)]
   \<and> sum_list (map snd (nightsByMonth (calculateAccrualAllocations strict_parse lease_with_hours)))
       = 1"
proof -
  have d: "Day 1706677200000 = 19753" "Day 1706763600000 = 19754" by code_simp+
  have s: "(1706763600000 - 1706677200000) div msPerDay + 1 = 2" by (simp add: msPerDay_def)
  have n: "nightsByMonth (calculateAccrualAllocations strict_parse lease_with_hours)
      = [(''2024-02'', 1)]"
    by (simp add: lease_with_hours_allocation)
  have t: "sum_list (map snd (nightsByMonth (calculateAccrualAllocations strict_parse lease_with_hours)))
      = 1"
    by (simp add: n)
  show ?thesis
    by (intro conjI lease_with_hours_dates d s n t)
qed

text \<open>
  C3. The months spanned are read on the calendar dates of the lease, each month the
  lease touches counting by the share of its days that the lease is active in. The
  claim fails where C2 fails, and by the same copy of a \<^verbatim>\<open>Date\<close> object with its time of
  day: the lease from 31 January to 1 February 2024 at 1,000.00 a month touches two
  months and spans 1/31 + 1/29 of a month, 6,674 cents, and the allocator gives it 3,448.
\<close>

theorem cents_short_with_time_of_day:
  "lease_dates strict_parse lease_with_hours = Some (1706677200000, 1706763600000)
   \<and> rentalAmount lease_with_hours = Some 1000
   \<and> Day 1706677200000 = 19753
   \<and> Day 1706763600000 = 19754
   \<and> lease_months 19753 19754 = [24288, 24289]
   \<and> monthsSpanned 19753 19754 = 1 / 31 + 1 / 29
   \<and> sum_list (map snd (allocations (calculateAccrualAllocations strict_parse lease_with_hours)))
       = 3448
   \<and> 2 < \<bar>3448 - 1000 * 100 * monthsSpanned 19753 19754\<bar>"
proof -
  have r: "rentalAmount lease_with_hours = Some 1000"
    by (simp add: lease_with_hours_def lease_jan_feb_def)
  have d: "Day 1706677200000 = 19753" "Day 1706763600000 = 19754" by code_simp+
  have l: "lease_months 19753 19754 = [24288, 24289]" by code_simp
  have m: "monthsSpanned 19753 19754 = 1 / 31 + 1 / 29" by code_simp
  have t: "sum_list (map snd (allocations (calculateAccrualAllocations strict_parse lease_with_hours)))
      = 3448"
    by (simp add: lease_with_hours_allocation)
  have b: "2 < \<bar>3448 - 1000 * 100 * monthsSpanned 19753 19754\<bar>"
    by (simp add: m)
  show ?thesis
    by (intro conjI lease_with_hours_dates r d l m t b)
qed

text \<open>
  C9. A lease whose start or end date is missing or cannot be read, or whose end is
  before its start, or whose monthly rent is zero or missing, is given the empty
  allocation: no earned cents and no nights. The allocator has no failing path, so the
  empty allocation is what it returns.
\<close>

theorem malformed_lease_allocates_nothing:
  assumes "malformed_lease legacy app"
  shows "calculateAccrualAllocations legacy app = no_allocation"
proof -
  define sv ev where "sv = js_or (leaseStartDate app) (requestedStartDate app)"
    and "ev = js_or (leaseEndDate app) (requestedEndDate app)"
  from assms consider
    (dates) "unusable_date legacy sv \<or> unusable_date legacy ev"
    | (order) s e where "parseDateOnly legacy sv = Some s" "parseDateOnly legacy ev = Some e"
        "date_less e s"
    | (rent) "rentalAmount app = None \<or> rentalAmount app = Some 0"
    by (auto simp: malformed_lease_def Let_def sv_def ev_def split: option.splits)
  then show ?thesis
  proof cases
    case dates
    then have "parseDateOnly legacy sv = Some InvalidDate \<or> parseDateOnly legacy ev = Some InvalidDate
       \<or> parseDateOnly legacy sv = None \<or> parseDateOnly legacy ev = None"
      using unusable_date_parse [of legacy sv] unusable_date_parse [of legacy ev] by auto
    then show ?thesis
      unfolding calculateAccrualAllocations_def sv_def [symmetric] ev_def [symmetric]
      by (rule calc_invalid)
  next
    case order
    then show ?thesis
      by (simp add: calculateAccrualAllocations_def sv_def ev_def)
  next
    case rent
    then show ?thesis
      by (auto simp: calculateAccrualAllocations_def Let_def fl_zero
          split: option.splits js_date.splits)
  qed
qed

theorem malformed_lease_allocates_nothing_witness:
  "malformed_lease strict_parse lease_zero_rent
   \<and> calculateAccrualAllocations strict_parse lease_zero_rent
       = \<lparr>allocations = [], nightsByMonth = []\<rparr>
   \<and> malformed_lease strict_parse lease_inverted
   \<and> calculateAccrualAllocations strict_parse lease_inverted
       = \<lparr>allocations = [], nightsByMonth = []\<rparr>
   \<and> malformed_lease strict_parse lease_no_end
   \<and> calculateAccrualAllocations strict_parse lease_no_end
       = \<lparr>allocations = [], nightsByMonth = []\<rparr>"
proof -
  have h1: "malformed_lease strict_parse lease_zero_rent" by code_simp
  have h2: "malformed_lease strict_parse lease_inverted" by code_simp
  have h3: "malformed_lease strict_parse lease_no_end" by code_simp
  show ?thesis
    using malformed_lease_allocates_nothing [OF h1] malformed_lease_allocates_nothing [OF h2]
      malformed_lease_allocates_nothing [OF h3] h1 h2 h3
    by (simp add: no_allocation_def)
qed

section \<open>The period filter: claims\<close>




section \<open>The revenue summary: claims\<close>




text \<open>
  C6, as the code has it. Whatever the period request, the keys of the cash timeline are
  the twelve months ending at the month that holds now on the server's clock. The period
  request does reach the cash side: the cash summary and every value of the cash
  timeline are computed from the succeeded payments that the payment query returns, and
  the query is bounded by the request. With no year, or a period that is neither a year
  nor a month with both parameters, it returns every succeeded payment. For the year
  \<open>y\<close> it returns those paid from midnight UTC on 1 January of \<open>y\<close> to before midnight
  UTC on 1 January of the next year. For month \<open>m\<close> of year \<open>y\<close>, \<open>m\<close> from 1 to 11, it
  returns those paid from the first of the month to before the first of the next, each
  bound being midnight UTC when its month has two digits and local midnight when it has
  one. For December the upper bound is the first of month 13, an invalid date, and the
  handler answers with status 500. The year has four digits, the month is written
  without a leading zero, as the revenue page sends them, and the runtime reads the text
  of a bound as Node does.
\<close>

theorem cash_timeline_window:
  "(revenueSummary legacy tz tzl now db apps q = Inr S
      \<and> qualifying_payments legacy db q = Inr payments
      \<and> 100 \<le> getFullYear tz now
      \<and> currentMonth = local_month tz now
      \<and> list_all (zone_keeps_month tz tzl) (window_months currentMonth) \<longrightarrow>
        obj_keys (monthlyRevenue S) = trailing_window currentMonth
      \<and> summary S = cashSummary payments
      \<and> (hasOwnProperty (monthlyRevenue S) key \<longrightarrow>
            map_of (monthlyRevenue S) key
              = Some (sum_list (map amount (filter (paid_in_month tz key) payments)))))
   \<and> ((requested_period q \<noteq> units ''year'' \<and> requested_period q \<noteq> units ''month'')
        \<or> \<not> truthy_param (q_year q)
        \<or> (requested_period q = units ''month'' \<and> \<not> truthy_param (q_month q)) \<longrightarrow>
        qualifying_payments legacy db q = Inr (filter (\<lambda>p. status p = ''succeeded'') db))
   \<and> (requested_period q = units ''year'' \<and> q_year q = Some (units (Number_toString y))
        \<and> 1000 \<le> y \<and> y \<le> 9998 \<longrightarrow>
        qualifying_payments legacy db q
          = Inr (succeeded_between (utc_midnight y 1) (utc_midnight (y + 1) 1) db))
   \<and> (requested_period q = units ''month'' \<and> q_year q = Some (units (Number_toString y))
        \<and> q_month q = Some (units (Number_toString m))
        \<and> 1000 \<le> y \<and> y \<le> 9999 \<and> 1 \<le> m \<and> m \<le> 11
        \<and> node_reads legacy tzl y m \<and> node_reads legacy tzl y (m + 1) \<longrightarrow>
        qualifying_payments legacy db q
          = Inr (succeeded_between (month_bound tzl y m) (month_bound tzl y (m + 1)) db))
   \<and> (requested_period q = units ''month'' \<and> q_year q = Some (units (Number_toString y))
        \<and> q_month q = Some (units (Number_toString 12))
        \<and> 1000 \<le> y \<and> y \<le> 9999 \<and> node_reads legacy tzl y 13 \<longrightarrow>
        revenueSummary legacy tz tzl now db apps q = Inl ServerError)"
proof (intro conjI impI)
  assume a: "revenueSummary legacy tz tzl now db apps q = Inr S
      \<and> qualifying_payments legacy db q = Inr payments
      \<and> 100 \<le> getFullYear tz now
      \<and> currentMonth = local_month tz now
      \<and> list_all (zone_keeps_month tz tzl) (window_months currentMonth)"
  then have r: "revenueSummary legacy tz tzl now db apps q = Inr S"
    and y: "100 \<le> getFullYear tz now"
    and cm: "currentMonth = local_month tz now"
    and z0: "list_all (zone_keeps_month tz tzl) (window_months currentMonth)"
    by blast+
  have z: "list_all (zone_keeps_month tz tzl) (window_months (local_month tz now))"
    using z0 by (simp only: cm)
  obtain ps where ps: "qualifying_payments legacy db q = Inr ps"
    and S: "summary S = cashSummary ps" "monthlyRevenue S = cashTimeline tz tzl now ps"
    using r by (rule revenueSummary_Inr) simp
  have e: "ps = payments" using ps a by simp
  show "obj_keys (monthlyRevenue S) = trailing_window currentMonth"
    using a by (simp add: S cashTimeline_keys monthlyRevenue_init_keys [OF y z])
  show "summary S = cashSummary payments" by (simp add: S e)
  assume h: "hasOwnProperty (monthlyRevenue S) key"
  then have "hasOwnProperty (monthlyRevenue_init tz tzl now) key"
    by (simp add: S hasOwnProperty_def cashTimeline_keys)
  then obtain v where v: "map_of (monthlyRevenue_init tz tzl now) key = Some v"
    by (auto simp: hasOwnProperty_map_of)
  then have "v = 0" by (rule monthlyRevenue_init_zero [OF y z])
  then show "map_of (monthlyRevenue S) key
      = Some (sum_list (map amount (filter (paid_in_month tz key) payments)))"
    using v by (simp add: S e cashTimeline_def add_payment_value)
next
  assume "(requested_period q \<noteq> units ''year'' \<and> requested_period q \<noteq> units ''month'')
      \<or> \<not> truthy_param (q_year q)
      \<or> (requested_period q = units ''month'' \<and> \<not> truthy_param (q_month q))"
  then have "dateFilter legacy (requested_period q) (q_year q) (q_month q) = None"
    using period_names by (auto simp: dateFilter_def)
  then show "qualifying_payments legacy db q = Inr (filter (\<lambda>p. status p = ''succeeded'') db)"
    by (simp add: qualifying_payments_def)
next
  assume "requested_period q = units ''year'' \<and> q_year q = Some (units (Number_toString y))
      \<and> 1000 \<le> y \<and> y \<le> 9998"
  then show "qualifying_payments legacy db q
      = Inr (succeeded_between (utc_midnight y 1) (utc_midnight (y + 1) 1) db)"
    by (simp add: qualifying_payments_def dateFilter_year succeeded_between_def)
next
  assume a: "requested_period q = units ''month'' \<and> q_year q = Some (units (Number_toString y))
      \<and> q_month q = Some (units (Number_toString m))
      \<and> 1000 \<le> y \<and> y \<le> 9999 \<and> 1 \<le> m \<and> m \<le> 11
      \<and> node_reads legacy tzl y m \<and> node_reads legacy tzl y (m + 1)"
  then have m: "0 \<le> m" "m \<le> 12" "1 \<le> m + 1" "m + 1 \<le> 12" by simp_all
  have lo: "Date_of_string legacy (bound_text y m) = ValidDate (month_bound tzl y m)"
    using a m by (intro bound_value) simp_all
  have hi: "Date_of_string legacy (bound_text y (m + 1)) = ValidDate (month_bound tzl y (m + 1))"
    using a m by (intro bound_value) simp_all
  show "qualifying_payments legacy db q
      = Inr (succeeded_between (month_bound tzl y m) (month_bound tzl y (m + 1)) db)"
    using a by (simp add: qualifying_payments_def dateFilter_month [OF m(1)] lo hi
        succeeded_between_def)
next
  assume a: "requested_period q = units ''month'' \<and> q_year q = Some (units (Number_toString y))
      \<and> q_month q = Some (units (Number_toString 12))
      \<and> 1000 \<le> y \<and> y \<le> 9999 \<and> node_reads legacy tzl y 13"
  have t: "node_reads legacy tzl y 12" by (simp add: node_reads_def)
  have lo: "Date_of_string legacy (bound_text y 12) = ValidDate (month_bound tzl y 12)"
    using a t by (intro bound_value) simp_all
  have hi: "Date_of_string legacy (bound_text y 13) = InvalidDate"
    using a bound_invalid [of y legacy tzl] by simp
  have "qualifying_payments legacy db q = Inl ServerError"
    using a by (simp add: qualifying_payments_def dateFilter_month [of 12] lo hi)
  then show "revenueSummary legacy tz tzl now db apps q = Inl ServerError"
    by (simp add: revenueSummary_def Let_def)
qed

theorem cash_timeline_window_witness:
  "revenueSummary strict_parse new_york new_york_local sample_now new_york_db [lease_jan_feb]
       all_time = Inr summary_new_york
   \<and> qualifying_payments strict_parse new_york_db all_time
       = Inr [pay_with_fee, pay_april_night, pay_rent]
   \<and> 100 \<le> getFullYear new_york sample_now
   \<and> 24293 = local_month new_york sample_now
   \<and> list_all (zone_keeps_month new_york new_york_local) (window_months 24293)
   \<and> trailing_window 24293 = window_2024_06
   \<and> obj_keys (monthlyRevenue summary_new_york) = window_2024_06
   \<and> summary summary_new_york = cashSummary [pay_with_fee, pay_april_night, pay_rent]
   \<and> hasOwnProperty (monthlyRevenue summary_new_york) ''2024-04''
   \<and> local_month_key new_york 1714528800000 = ''2024-04''
   \<and> map_of (monthlyRevenue summary_new_york) ''2024-04'' = Some 700
   \<and> requested_period all_time \<noteq> units ''year''
   \<and> requested_period all_time \<noteq> units ''month''
   \<and> [pay_with_fee, pay_april_night, pay_rent]
       = filter (\<lambda>p. status p = ''succeeded'') new_york_db
   \<and> requested_period year_2023 = units ''year''
   \<and> q_year year_2023 = Some (units (Number_toString 2023))
   \<and> (1000 :: int) \<le> 2023 \<and> (2023 :: int) \<le> 9998
   \<and> utc_midnight 2023 1 = 1672531200000
   \<and> utc_midnight (2023 + 1) 1 = 1704067200000
   \<and> succeeded_between 1672531200000 1704067200000 sample_db = []
   \<and> qualifying_payments strict_parse sample_db year_2023 = Inr []
   \<and> requested_period (month_request 2024 5) = units ''month''
   \<and> q_year (month_request 2024 5) = Some (units (Number_toString 2024))
   \<and> q_month (month_request 2024 5) = Some (units (Number_toString 5))
   \<and> (1000 :: int) \<le> 2024 \<and> (2024 :: int) \<le> 9999 \<and> (1 :: int) \<le> 5 \<and> (5 :: int) \<le> 11
   \<and> node_reads (node_legacy new_york_local) new_york_local 2024 5
   \<and> node_reads (node_legacy new_york_local) new_york_local 2024 (5 + 1)
   \<and> month_bound new_york_local 2024 5 = 1714536000000
   \<and> month_bound new_york_local 2024 (5 + 1) = 1717214400000
   \<and> succeeded_between 1714536000000 1717214400000 new_york_db = [pay_with_fee]
   \<and> qualifying_payments (node_legacy new_york_local) new_york_db (month_request 2024 5)
       = Inr [pay_with_fee]
   \<and> requested_period (month_request 2024 12) = units ''month''
   \<and> q_year (month_request 2024 12) = Some (units (Number_toString 2024))
   \<and> q_month (month_request 2024 12) = Some (units (Number_toString 12))
   \<and> node_reads (node_legacy new_york_local) new_york_local 2024 13
   \<and> revenueSummary (node_legacy new_york_local) new_york new_york_local sample_now
         new_york_db [lease_jan_feb] (month_request 2024 12) = Inl ServerError"
proof -
  have y: "100 \<le> getFullYear new_york sample_now" by code_simp
  have c: "24293 = local_month new_york sample_now" by code_simp
  have z: "list_all (zone_keeps_month new_york new_york_local) (window_months 24293)"
    by code_simp
  have w: "trailing_window 24293 = window_2024_06" by code_simp
  have h: "hasOwnProperty (monthlyRevenue summary_new_york) ''2024-04''" by code_simp
  have lk: "local_month_key new_york 1714528800000 = ''2024-04''" by code_simp
  have p: "sum_list (map amount (filter (paid_in_month new_york ''2024-04'')
      [pay_with_fee, pay_april_night, pay_rent])) = 700"
    by code_simp
  have r1: "requested_period all_time \<noteq> units ''year''"
    "requested_period all_time \<noteq> units ''month''"
    by (simp_all add: requested_period_def all_time_def units_def)
  have r2: "requested_period year_2023 = units ''year''"
    "q_year year_2023 = Some (units (Number_toString 2023))"
    by code_simp+
  have n2: "(1000 :: int) \<le> 2023" "(2023 :: int) \<le> 9998" by simp_all
  have u: "utc_midnight 2023 1 = 1672531200000" "utc_midnight (2023 + 1) 1 = 1704067200000"
    by code_simp+
  have s2: "succeeded_between 1672531200000 1704067200000 sample_db = []" by code_simp
  have r3: "requested_period (month_request 2024 5) = units ''month''"
    "q_year (month_request 2024 5) = Some (units (Number_toString 2024))"
    "q_month (month_request 2024 5) = Some (units (Number_toString 5))"
    by (simp_all add: requested_period_def month_request_def)
  have n3: "(1000 :: int) \<le> 2024" "(2024 :: int) \<le> 9999" "(1 :: int) \<le> 5" "(5 :: int) \<le> 11"
    by simp_all
  have nr: "node_reads (node_legacy new_york_local) new_york_local 2024 5"
    "node_reads (node_legacy new_york_local) new_york_local 2024 (5 + 1)"
    "node_reads (node_legacy new_york_local) new_york_local 2024 13"
    by code_simp+
  have mb: "month_bound new_york_local 2024 5 = 1714536000000"
    "month_bound new_york_local 2024 (5 + 1) = 1717214400000"
    by code_simp+
  have s3: "succeeded_between 1714536000000 1717214400000 new_york_db = [pay_with_fee]"
    by code_simp
  have r4: "requested_period (month_request 2024 12) = units ''month''"
    "q_year (month_request 2024 12) = Some (units (Number_toString 2024))"
    "q_month (month_request 2024 12) = Some (units (Number_toString 12))"
    by (simp_all add: requested_period_def month_request_def)
  note a = cash_timeline_window [where legacy = strict_parse and tz = new_york
      and tzl = new_york_local and now = sample_now and db = new_york_db
      and apps = "[lease_jan_feb]" and q = all_time and S = summary_new_york
      and payments = "[pay_with_fee, pay_april_night, pay_rent]" and currentMonth = 24293
      and key = "''2024-04''"]
  have a1: "obj_keys (monthlyRevenue summary_new_york) = window_2024_06"
    using a summary_new_york_eval new_york_payments y c z w by simp
  have a2: "summary summary_new_york = cashSummary [pay_with_fee, pay_april_night, pay_rent]"
    using a summary_new_york_eval new_york_payments y c z by simp
  have a3: "map_of (monthlyRevenue summary_new_york) ''2024-04'' = Some 700"
    using a summary_new_york_eval new_york_payments y c z h p by simp
  have a4: "[pay_with_fee, pay_april_night, pay_rent]
      = filter (\<lambda>p. status p = ''succeeded'') new_york_db"
    using a new_york_payments r1 by simp
  have b: "qualifying_payments strict_parse sample_db year_2023 = Inr []"
    using cash_timeline_window [where legacy = strict_parse and db = sample_db
        and q = year_2023 and y = 2023] r2 n2 u s2
    by simp
  have d: "qualifying_payments (node_legacy new_york_local) new_york_db (month_request 2024 5)
      = Inr [pay_with_fee]"
    using cash_timeline_window [where legacy = "node_legacy new_york_local"
        and tzl = new_york_local and db = new_york_db and q = "month_request 2024 5"
        and y = 2024 and m = 5] r3 n3 nr(1,2) mb s3
    by simp
  have e: "revenueSummary (node_legacy new_york_local) new_york new_york_local sample_now
      new_york_db [lease_jan_feb] (month_request 2024 12) = Inl ServerError"
    using cash_timeline_window [where legacy = "node_legacy new_york_local"
        and tz = new_york and tzl = new_york_local and now = sample_now and db = new_york_db
        and apps = "[lease_jan_feb]" and q = "month_request 2024 12" and y = 2024] r4 n3(1,2) nr(3)
    by simp
  show ?thesis
    by (intro conjI summary_new_york_eval new_york_payments y c z w a1 a2 h lk a3 r1 a4 r2 n2 u
        s2 b r3 n3 nr(1,2) mb s3 d r4 nr(3) e)
qed

theorem cash_timeline_window_counterexample:
  "revenueSummary strict_parse utc utc sample_now sample_db [lease_jan_feb] all_time
     = Inr summary_all_time
   \<and> revenueSummary strict_parse utc utc sample_now sample_db [lease_jan_feb] year_2023
       = Inr summary_year_2023
   \<and> totalRevenue (summary summary_all_time) = 7500
   \<and> totalRevenue (summary summary_year_2023) = 0
   \<and> map_of (monthlyRevenue summary_all_time) ''2024-06'' = Some 5000
   \<and> map_of (monthlyRevenue summary_year_2023) ''2024-06'' = Some 0"
proof -
  have a: "totalRevenue (summary summary_all_time) = 7500"
    "totalRevenue (summary summary_year_2023) = 0"
    "map_of (monthlyRevenue summary_all_time) ''2024-06'' = Some 5000"
    "map_of (monthlyRevenue summary_year_2023) ''2024-06'' = Some 0"
    by code_simp+
  show ?thesis
    by (intro conjI summary_all_time_eval summary_year_2023_eval a)
qed

text \<open>
  C7, as the code has it. The period totals sum the entries of the accrual and occupancy
  timelines whose key passes the filter, and the months in the period are the number of
  distinct keys that pass; when there is none the number is 1 for a month request, 12
  for a year request and 1 for all time (no accrual month is then observed at all). The
  average monthly earned is the total over the months rounded half up to a whole cent,
  and the average nightly rate is the total over the nights rounded the same way, 0 when
  there are no occupied nights.
\<close>

theorem period_scoped_accrual:
  assumes "revenueSummary legacy tz tzl now db apps q = Inr S"
    and "periodConfig = getPeriodConfig (requested_period q) (q_year q) (q_month q)"
    and "touched = length (months_touched periodConfig (accrualTimeline S) (occupancyTimeline S))"
  shows "totalEarned (accrualSummary S) = matching_total periodConfig (accrualTimeline S)
     \<and> occupiedNights (accrualSummary S) = matching_total periodConfig (occupancyTimeline S)
     \<and> monthsInPeriod (accrualSummary S)
         = (if touched \<noteq> 0 then touched
            else case periodConfig of
                   MonthPeriod y m \<Rightarrow> 1
                 | YearPeriod y \<Rightarrow> 12
                 | AllPeriod \<Rightarrow> 1)
     \<and> averageMonthlyEarned (accrualSummary S)
         = Math_round (of_int (totalEarned (accrualSummary S))
                       / of_nat (monthsInPeriod (accrualSummary S)))
     \<and> averageNightlyRate (accrualSummary S)
         = (if occupiedNights (accrualSummary S) > 0
            then Math_round (of_int (totalEarned (accrualSummary S))
                             / of_int (occupiedNights (accrualSummary S)))
            else 0)"
proof -
  define l where "l = lease_ledger legacy db apps now"
  have S: "accrualSummary S = accrualSummary_of periodConfig l"
    "accrualTimeline S = accrual l" "occupancyTimeline S = occupancy l"
    using assms(1) by (auto elim!: revenueSummary_Inr simp: l_def assms(2))
  have t: "touched = length (months_touched periodConfig (accrual l) (occupancy l))"
    using assms(3) by (simp add: S)
  have zero: "periodConfig = AllPeriod \<Longrightarrow> touched = 0 \<Longrightarrow> length (obj_keys (accrual l)) = 0"
    using all_period_fallback [of "accrual l" "occupancy l"] by (simp add: t)
  have c: "length (monthsCovered (periodTotals periodConfig (accrual l) (occupancy l))) = touched"
    by (simp only: periodTotals_eq(3) t)
  have m: "monthsInPeriod (accrualSummary S)
      = monthsInPeriod_of periodConfig touched (length (obj_keys (accrual l)))"
    by (simp only: S accrualSummary_of_def Let_def c accrual_summary.simps)
  have months: "monthsInPeriod (accrualSummary S)
      = (if touched \<noteq> 0 then touched
         else case periodConfig of MonthPeriod y m \<Rightarrow> 1 | YearPeriod y \<Rightarrow> 12 | AllPeriod \<Rightarrow> 1)"
  proof (cases "touched = 0")
    case False
    then show ?thesis by (simp add: m monthsInPeriod_of_def)
  next
    case True
    then show ?thesis
      using zero by (cases periodConfig) (simp_all add: m monthsInPeriod_of_def)
  qed
  have pos: "0 < monthsInPeriod (accrualSummary S)"
    unfolding months by (auto split: periodConfig.splits)
  show ?thesis
    using pos months
    by (simp add: S accrualSummary_of_def Let_def periodTotals_eq)
qed

theorem period_scoped_accrual_witness:
  "revenueSummary strict_parse utc utc sample_now sample_db [lease_jan_feb] all_time
     = Inr summary_all_time
   \<and> AllPeriod = getPeriodConfig (requested_period all_time) (q_year all_time) (q_month all_time)
   \<and> 2 = length (months_touched AllPeriod (accrualTimeline summary_all_time)
                (occupancyTimeline summary_all_time))
   \<and> totalEarned (accrualSummary summary_all_time) = 54839 + 34483
   \<and> occupiedNights (accrualSummary summary_all_time) = 17 + 10
   \<and> monthsInPeriod (accrualSummary summary_all_time) = 2
   \<and> averageMonthlyEarned (accrualSummary summary_all_time) = Math_round (89322 / 2)
   \<and> averageNightlyRate (accrualSummary summary_all_time) = Math_round (89322 / 27)
   \<and> revenueSummary strict_parse utc utc sample_now sample_db [lease_jan_feb] year_2023
       = Inr summary_year_2023
   \<and> YearPeriod (Some 2023)
       = getPeriodConfig (requested_period year_2023) (q_year year_2023) (q_month year_2023)
   \<and> 0 = length (months_touched (YearPeriod (Some 2023)) (accrualTimeline summary_year_2023)
                (occupancyTimeline summary_year_2023))
   \<and> monthsInPeriod (accrualSummary summary_year_2023) = 12
   \<and> averageNightlyRate (accrualSummary summary_year_2023) = 0"
proof -
  have c1: "AllPeriod
      = getPeriodConfig (requested_period all_time) (q_year all_time) (q_month all_time)"
    by code_simp
  have t1: "2 = length (months_touched AllPeriod (accrualTimeline summary_all_time)
      (occupancyTimeline summary_all_time))"
    by code_simp
  have c2: "YearPeriod (Some 2023)
      = getPeriodConfig (requested_period year_2023) (q_year year_2023) (q_month year_2023)"
    by code_simp
  have t2: "0 = length (months_touched (YearPeriod (Some 2023))
      (accrualTimeline summary_year_2023) (occupancyTimeline summary_year_2023))"
    by code_simp
  have m1: "matching_total AllPeriod (accrualTimeline summary_all_time) = 54839 + 34483"
    "matching_total AllPeriod (occupancyTimeline summary_all_time) = 17 + 10"
    by code_simp+
  have a: "totalEarned (accrualSummary summary_all_time) = 54839 + 34483"
    "occupiedNights (accrualSummary summary_all_time) = 17 + 10"
    "monthsInPeriod (accrualSummary summary_all_time) = 2"
    using period_scoped_accrual [OF summary_all_time_eval c1 t1] m1 by simp_all
  have b: "averageMonthlyEarned (accrualSummary summary_all_time) = Math_round (89322 / 2)"
    "averageNightlyRate (accrualSummary summary_all_time) = Math_round (89322 / 27)"
    using period_scoped_accrual [OF summary_all_time_eval c1 t1] a by simp_all
  have d: "monthsInPeriod (accrualSummary summary_year_2023) = 12"
    "averageNightlyRate (accrualSummary summary_year_2023) = 0"
    using period_scoped_accrual [OF summary_year_2023_eval c2 t2]
    by (simp_all add: summary_year_2023_def)
  show ?thesis
    by (intro conjI summary_all_time_eval summary_year_2023_eval c1 t1 c2 t2 a b d)
qed

theorem period_scoped_accrual_counterexample:
  "revenueSummary strict_parse utc utc sample_now sample_db [] all_time = Inr summary_no_leases
   \<and> length (obj_keys (accrualTimeline summary_no_leases)) = 0
   \<and> monthsInPeriod (accrualSummary summary_no_leases) = 1
   \<and> revenueSummary strict_parse utc utc sample_now sample_db [lease_jan_feb] all_time
       = Inr summary_all_time
   \<and> totalEarned (accrualSummary summary_all_time) = 89322
   \<and> occupiedNights (accrualSummary summary_all_time) = 27
   \<and> averageNightlyRate (accrualSummary summary_all_time) = 3308
   \<and> (3308 :: rat) \<noteq> 89322 / 27"
proof -
  have a: "length (obj_keys (accrualTimeline summary_no_leases)) = 0"
    "monthsInPeriod (accrualSummary summary_no_leases) = 1"
    "totalEarned (accrualSummary summary_all_time) = 89322"
    "occupiedNights (accrualSummary summary_all_time) = 27"
    "averageNightlyRate (accrualSummary summary_all_time) = 3308"
    by code_simp+
  have b: "(3308 :: rat) \<noteq> 89322 / 27" by simp
  show ?thesis
    by (intro conjI summary_no_leases_eval summary_all_time_eval a b)
qed

text \<open>
  C8. Over the succeeded payments the query returns, the cash summary holds the sum of
  the amounts (negative refund rows included), the sum of amount less fee, the sum of the
  fees, the sum of the absolute amounts over exactly the rows of type refund or with a
  negative amount, the number of payments, and the total over that number, 0 when there
  is no payment.
\<close>

theorem cash_summary_sums:
  assumes "revenueSummary legacy tz tzl now db apps q = Inr S"
    and "qualifying_payments legacy db q = Inr payments"
  shows "list_all (\<lambda>p. status p = ''succeeded'') payments
     \<and> totalRevenue (summary S) = sum_list (map amount payments)
     \<and> netRevenue (summary S) = sum_list (map (\<lambda>p. amount p - fee p) payments)
     \<and> totalFees (summary S) = sum_list (map fee payments)
     \<and> refundsTotal (summary S)
         = sum_list (map (\<lambda>p. \<bar>amount p\<bar>)
             (filter (\<lambda>p. paymentType p = ''refund'' \<or> amount p < 0) payments))
     \<and> paymentCount (summary S) = length payments
     \<and> averagePayment (summary S)
         = (if length payments = 0 then 0
            else of_int (sum_list (map amount payments)) / of_nat (length payments))"
proof -
  obtain ps where ps: "qualifying_payments legacy db q = Inr ps"
    and S: "summary S = cashSummary ps"
    using assms(1) by (rule revenueSummary_Inr) simp
  have e: "ps = payments" using ps assms(2) by simp
  have "list_all (\<lambda>p. status p = ''succeeded'') payments"
    using assms(2) find_succeeded_sound(2) by (simp add: qualifying_payments_def)
  then show ?thesis
    by (simp add: S e cashSummary_def Let_def foldl_sum)
qed

theorem cash_summary_sums_witness:
  "revenueSummary strict_parse utc utc sample_now sample_db [lease_jan_feb] all_time
     = Inr summary_all_time
   \<and> qualifying_payments strict_parse sample_db all_time
       = Inr [pay_rent, pay_refund, pay_with_fee]
   \<and> totalRevenue (summary summary_all_time) = 10000 + (- 5000) + 2500
   \<and> netRevenue (summary summary_all_time) = 10000 + (- 5000) + (2500 - 100)
   \<and> totalFees (summary summary_all_time) = 100
   \<and> refundsTotal (summary summary_all_time) = 5000
   \<and> paymentCount (summary summary_all_time) = 3
   \<and> averagePayment (summary summary_all_time) = 7500 / 3"
  using cash_summary_sums [OF summary_all_time_eval sample_payments_all_time]
    summary_all_time_eval sample_payments_all_time
  by (simp add: pay_rent_def pay_refund_def pay_with_fee_def fee_def)

text \<open>
  C10. In every summary the handler returns, the per-month accrual map and the per-month
  occupancy map have the keys of the twelve-month cash map, in its order; under each key
  stands the entry of the accrual or occupancy timeline for that key, or 0 when the
  timeline has none. A month outside the cash window is in neither per-month map, so it
  shows only in the two timelines.
\<close>

theorem windowed_maps_share_keys:
  assumes "revenueSummary legacy tz tzl now db apps q = Inr S"
  shows "obj_keys (accrualMonthlyRevenue S) = obj_keys (monthlyRevenue S)
     \<and> obj_keys (occupancyByMonth S) = obj_keys (monthlyRevenue S)
     \<and> (hasOwnProperty (monthlyRevenue S) k \<longrightarrow>
           map_of (accrualMonthlyRevenue S) k = Some (obj_get_or0 (accrualTimeline S) k)
         \<and> map_of (occupancyByMonth S) k = Some (obj_get_or0 (occupancyTimeline S) k))
     \<and> (\<not> hasOwnProperty (monthlyRevenue S) k \<longrightarrow>
           map_of (accrualMonthlyRevenue S) k = None
         \<and> map_of (occupancyByMonth S) k = None)"
proof -
  obtain ps where S: "S = \<lparr>summary = cashSummary ps,
              monthlyRevenue = cashTimeline tz tzl now ps,
              accrualMonthlyRevenue =
                window_of (cashTimeline tz tzl now ps) (accrual (lease_ledger legacy db apps now)),
              occupancyByMonth =
                window_of (cashTimeline tz tzl now ps) (occupancy (lease_ledger legacy db apps now)),
              accrualSummary =
                accrualSummary_of (getPeriodConfig (requested_period q) (q_year q) (q_month q))
                  (lease_ledger legacy db apps now),
              accrualTimeline = accrual (lease_ledger legacy db apps now),
              occupancyTimeline = occupancy (lease_ledger legacy db apps now)\<rparr>"
    using assms by (rule revenueSummary_Inr)
  have w: "window_of (cashTimeline tz tzl now ps) t
      = map (\<lambda>k. (k, obj_get_or0 t k)) (obj_keys (cashTimeline tz tzl now ps))" for t
    by (rule window_of_eq [OF cashTimeline_distinct])
  have m: "map_of (map (\<lambda>k. (k, f k)) ks) k = (if k \<in> set ks then Some (f k) else None)"
    for f :: "string \<Rightarrow> int" and ks
    by (induction ks) auto
  have k: "obj_keys (map (\<lambda>k. (k, f k)) ks) = ks" for f :: "string \<Rightarrow> int" and ks
    by (simp add: obj_keys_def comp_def)
  show ?thesis
    by (simp add: S w m k hasOwnProperty_def)
qed

theorem windowed_maps_share_keys_witness:
  "revenueSummary strict_parse utc utc sample_now sample_db [lease_jan_feb] all_time
     = Inr summary_all_time
   \<and> obj_keys (monthlyRevenue summary_all_time) = window_2024_06
   \<and> obj_keys (accrualMonthlyRevenue summary_all_time) = window_2024_06
   \<and> obj_keys (occupancyByMonth summary_all_time) = window_2024_06
   \<and> hasOwnProperty (monthlyRevenue summary_all_time) ''2024-02''
   \<and> map_of (accrualMonthlyRevenue summary_all_time) ''2024-02'' = Some 34483
   \<and> map_of (occupancyByMonth summary_all_time) ''2024-02'' = Some 10
   \<and> \<not> hasOwnProperty (monthlyRevenue summary_all_time) ''2023-06''
   \<and> map_of (accrualMonthlyRevenue summary_all_time) ''2023-06'' = None
   \<and> map_of (occupancyByMonth summary_all_time) ''2023-06'' = None"
proof -
  have k: "obj_keys (monthlyRevenue summary_all_time) = window_2024_06" by code_simp
  have h: "hasOwnProperty (monthlyRevenue summary_all_time) ''2024-02''"
    "\<not> hasOwnProperty (monthlyRevenue summary_all_time) ''2023-06''"
    by code_simp+
  have g: "obj_get_or0 (accrualTimeline summary_all_time) ''2024-02'' = 34483"
    "obj_get_or0 (occupancyTimeline summary_all_time) ''2024-02'' = 10"
    by code_simp+
  show ?thesis
    using windowed_maps_share_keys [OF summary_all_time_eval, of "''2024-02''"]
      windowed_maps_share_keys [OF summary_all_time_eval, of "''2023-06''"]
      summary_all_time_eval k h g
    by simp
qed

end
